theory Spec2Isabelle
  imports
    Complex_Main
    "HOL-Library.Multiset"
    "HOL-Library.Char_ord"
    "HOL-Library.List_Lexorder"
    "HOL-Library.Product_Lexorder"
begin

section \<open>Numbers of the pipeline\<close>

text \<open>
  The pipeline of \<^verbatim>\<open>process_data.py\<close> computes on pandas columns. Counters are
  integers (\<^typ>\<open>int\<close>, unbounded: the wrap-around of int64 sums is not
  modelled); every ratio is a float64. A float64 is modelled by
  \<open>fval\<close>: a finite value is an exact rational (rounding and overflow of finite
  arithmetic are not modelled), and the three special values that decide the
  control flow of the source (\<open>NaN\<close>, \<open>+inf\<close>, \<open>-inf\<close>) are kept, with the
  IEEE rules for them. Zero is unsigned: every zero divisor of the source comes from
  an integer column.
\<close>

datatype fval = Finite rat | PosInf | NegInf | NaN

datatype error = KeyError | ValueError | OverflowError | TypeError

fun fneg :: "fval \<Rightarrow> fval" where
  "fneg (Finite a) = Finite (- a)"
| "fneg PosInf = NegInf"
| "fneg NegInf = PosInf"
| "fneg NaN = NaN"

fun fadd :: "fval \<Rightarrow> fval \<Rightarrow> fval" where
  "fadd NaN _ = NaN"
| "fadd _ NaN = NaN"
| "fadd (Finite a) (Finite b) = Finite (a + b)"
| "fadd PosInf NegInf = NaN"
| "fadd NegInf PosInf = NaN"
| "fadd PosInf _ = PosInf"
| "fadd NegInf _ = NegInf"
| "fadd (Finite a) PosInf = PosInf"
| "fadd (Finite a) NegInf = NegInf"

definition fsub :: "fval \<Rightarrow> fval \<Rightarrow> fval" where
  "fsub a b = fadd a (fneg b)"

definition inf_of_sign :: "bool \<Rightarrow> fval" where
  "inf_of_sign pos = (if pos then PosInf else NegInf)"

fun fmul :: "fval \<Rightarrow> fval \<Rightarrow> fval" where
  "fmul NaN _ = NaN"
| "fmul _ NaN = NaN"
| "fmul (Finite a) (Finite b) = Finite (a * b)"
| "fmul PosInf PosInf = PosInf"
| "fmul PosInf NegInf = NegInf"
| "fmul NegInf PosInf = NegInf"
| "fmul NegInf NegInf = PosInf"
| "fmul PosInf (Finite b) = (if b = 0 then NaN else inf_of_sign (0 < b))"
| "fmul NegInf (Finite b) = (if b = 0 then NaN else inf_of_sign (b < 0))"
| "fmul (Finite a) PosInf = (if a = 0 then NaN else inf_of_sign (0 < a))"
| "fmul (Finite a) NegInf = (if a = 0 then NaN else inf_of_sign (a < 0))"

text \<open>
  Division of two pandas columns never raises: a zero divisor gives \<open>NaN\<close> for
  \<open>0 / 0\<close> and an infinity otherwise.
\<close>

fun fdiv :: "fval \<Rightarrow> fval \<Rightarrow> fval" where
  "fdiv NaN _ = NaN"
| "fdiv _ NaN = NaN"
| "fdiv (Finite a) (Finite b) =
     (if b = 0 then (if a = 0 then NaN else inf_of_sign (0 < a)) else Finite (a / b))"
| "fdiv (Finite a) PosInf = Finite 0"
| "fdiv (Finite a) NegInf = Finite 0"
| "fdiv PosInf (Finite b) = inf_of_sign (0 \<le> b)"
| "fdiv NegInf (Finite b) = inf_of_sign (b < 0)"
| "fdiv PosInf _ = NaN"
| "fdiv NegInf _ = NaN"

text \<open>Comparisons: every comparison with \<open>NaN\<close> is false.\<close>

fun flt :: "fval \<Rightarrow> fval \<Rightarrow> bool" where
  "flt (Finite a) (Finite b) = (a < b)"
| "flt (Finite a) PosInf = True"
| "flt NegInf (Finite b) = True"
| "flt NegInf PosInf = True"
| "flt _ _ = False"

fun fle :: "fval \<Rightarrow> fval \<Rightarrow> bool" where
  "fle NaN _ = False"
| "fle _ NaN = False"
| "fle (Finite a) (Finite b) = (a \<le> b)"
| "fle NegInf _ = True"
| "fle _ PosInf = True"
| "fle _ _ = False"

definition fgt :: "fval \<Rightarrow> fval \<Rightarrow> bool" where
  "fgt a b = flt b a"

definition fge :: "fval \<Rightarrow> fval \<Rightarrow> bool" where
  "fge a b = fle b a"

definition of_count :: "int \<Rightarrow> fval" where
  "of_count i = Finite (of_int i)"

text \<open>
  Python's built-in \<open>min(a, b)\<close> and \<open>max(a, b)\<close> keep the first argument unless
  the second compares strictly below (above) it, so a \<open>NaN\<close> first argument is
  returned as it is.
\<close>

definition py_min :: "fval \<Rightarrow> fval \<Rightarrow> fval" where
  "py_min a b = (if flt b a then b else a)"

definition py_max :: "fval \<Rightarrow> fval \<Rightarrow> fval" where
  "py_max a b = (if fgt b a then b else a)"

text \<open>
  Python's \<open>int(x)\<close> truncates towards zero; it raises \<open>ValueError\<close> on
  \<open>NaN\<close> and \<open>OverflowError\<close> on an infinity.
\<close>

definition trunc :: "rat \<Rightarrow> int" where
  "trunc a = (if 0 \<le> a then \<lfloor>a\<rfloor> else \<lceil>a\<rceil>)"

fun py_int :: "fval \<Rightarrow> error + int" where
  "py_int (Finite a) = Inr (trunc a)"
| "py_int NaN = Inl ValueError"
| "py_int PosInf = Inl OverflowError"
| "py_int NegInf = Inl OverflowError"

text \<open>
  Column reductions of pandas skip \<open>NaN\<close>: \<open>sum\<close> of nothing is 0, \<open>mean\<close> and
  \<open>max\<close> of nothing are \<open>NaN\<close>.
\<close>

definition notna :: "fval \<Rightarrow> bool" where
  "notna x = (x \<noteq> NaN)"

definition nansum :: "fval list \<Rightarrow> fval" where
  "nansum xs = foldr fadd (filter notna xs) (Finite 0)"

definition nanmean :: "fval list \<Rightarrow> fval" where
  "nanmean xs =
     (let ys = filter notna xs
      in if ys = [] then NaN else fdiv (nansum ys) (Finite (of_nat (length ys))))"

fun fmax2 :: "fval \<Rightarrow> fval \<Rightarrow> fval" where
  "fmax2 a b = (if flt a b then b else a)"

definition nanmax :: "fval list \<Rightarrow> fval" where
  "nanmax xs =
     (case filter notna xs of [] \<Rightarrow> NaN | y # ys \<Rightarrow> foldl fmax2 y ys)"

section \<open>Tables\<close>

text \<open>
  A row of any table carries the keys \<open>state\<close> and \<open>district\<close>. A biometric row,
  after the Feature Deriver, also carries \<open>total_biometric_updates\<close> and a
  \<open>date\<close>, in days, where \<open>None\<close> is pandas' \<open>NaT\<close> (a date that did not parse).
  A biometric table says whether it has a \<open>date\<close> column at all; without one the
  \<open>date\<close> field of its rows is never read.
\<close>

record keyed =
  state :: string
  district :: string

record bio_agg_row = keyed +
  total_biometric_updates :: int

record bio_row = bio_agg_row +
  date :: "int option"

record bio_table =
  has_date :: bool
  rows :: "bio_row list"

record enrol_row = keyed +
  age_0_5 :: int
  age_5_17 :: int
  age_18_greater :: int

record forecast_point =
  fdate :: int
  forecast :: int
  lower_ci :: int
  upper_ci :: int

definition key_of :: "'a keyed_scheme \<Rightarrow> string \<times> string" where
  "key_of r = (state r, district r)"

section \<open>Forecaster\<close>

text \<open>
  \<open>df.groupby('date')['total_biometric_updates'].sum()\<close>: one total per distinct
  date, ascending by date; rows without a date are dropped.
\<close>

definition dated :: "bio_row list \<Rightarrow> bio_row list" where
  "dated rs = filter (\<lambda>r. date r \<noteq> None) rs"

definition dates_of :: "bio_row list \<Rightarrow> int list" where
  "dates_of rs = sort (remdups (map (\<lambda>r. the (date r)) (dated rs)))"

definition daily_totals :: "bio_row list \<Rightarrow> (int \<times> int) list" where
  "daily_totals rs =
     map (\<lambda>d. (d, sum_list (map total_biometric_updates (filter (\<lambda>r. date r = Some d) rs))))
       (dates_of rs)"

text \<open>\<open>Series.pct_change()\<close>: \<open>x[i] / x[i-1] - 1\<close>, the first entry \<open>NaN\<close>.\<close>

definition pct :: "int \<Rightarrow> int \<Rightarrow> fval" where
  "pct prev cur = fsub (fdiv (of_count cur) (of_count prev)) (Finite 1)"

fun pct_change :: "int list \<Rightarrow> fval list" where
  "pct_change [] = []"
| "pct_change (x # xs) = NaN # map2 pct (x # xs) xs"

definition tail :: "nat \<Rightarrow> 'a list \<Rightarrow> 'a list" where
  "tail n xs = drop (length xs - n) xs"

text \<open>
  The loop over \<open>range(1, days + 1)\<close>. A failing \<open>int(...)\<close> ends the whole call
  with its exception.
\<close>

definition uncertainty :: "int \<Rightarrow> rat" where
  "uncertainty i = 5 / 100 + (1 / 100) * of_int i"

fun forecast_loop :: "int list \<Rightarrow> int \<Rightarrow> fval \<Rightarrow> fval \<Rightarrow> error + forecast_point list" where
  "forecast_loop [] last_date growth_factor current_val = Inr []"
| "forecast_loop (i # idxs) last_date growth_factor current_val =
     (let next_date = last_date + i;
          current_val = fmul current_val growth_factor;
          unc = Finite (uncertainty i)
      in case py_int current_val of Inl e \<Rightarrow> Inl e | Inr f \<Rightarrow>
         (case py_int (fmul current_val (fsub (Finite 1) unc)) of Inl e \<Rightarrow> Inl e | Inr lo \<Rightarrow>
         (case py_int (fmul current_val (fadd (Finite 1) unc)) of Inl e \<Rightarrow> Inl e | Inr hi \<Rightarrow>
         (case forecast_loop idxs last_date growth_factor current_val of Inl e \<Rightarrow> Inl e
          | Inr ps \<Rightarrow> Inr (\<lparr>fdate = next_date, forecast = f, lower_ci = lo, upper_ci = hi\<rparr> # ps)))))"

definition growth_factor_of :: "fval \<Rightarrow> fval" where
  "growth_factor_of avg_growth =
     fadd (Finite 1) (py_max (py_min avg_growth (Finite (5 / 100))) (Finite (- (5 / 100))))"

text \<open>The optional filter: \<open>df[df['state'] == state]\<close> unless \<open>state\<close> is \<open>"All"\<close>.\<close>

definition select_state :: "bio_table \<Rightarrow> string \<Rightarrow> bio_table" where
  "select_state df st =
     (if st \<noteq> ''All'' then df\<lparr>rows := filter (\<lambda>r. state r = st) (rows df)\<rparr> else df)"

definition generate_forecast :: "bio_table \<Rightarrow> string \<Rightarrow> int \<Rightarrow> error + forecast_point list" where
  "generate_forecast df st days =
     (let df = select_state df st
      in if rows df = [] \<or> \<not> has_date df then Inr []
         else
           (let daily = daily_totals (rows df);
                last_14 = tail 14 daily
            in if length last_14 < 14 then Inr []
               else
                 (let avg_growth = nanmean (pct_change (map snd last_14));
                      last_val = snd (last last_14);
                      last_date = fst (last last_14);
                      growth_factor = growth_factor_of avg_growth
                  in forecast_loop [1..days] last_date growth_factor (of_count last_val))))"

section \<open>District Metrics Engine\<close>

text \<open>
  \<open>groupby(['state', 'district'])\<close>: one group per distinct key, the keys in
  ascending order.
\<close>

definition group_keys :: "'a keyed_scheme list \<Rightarrow> (string \<times> string) list" where
  "group_keys rs = sort (remdups (map key_of rs))"

definition group_rows :: "string \<times> string \<Rightarrow> 'a keyed_scheme list \<Rightarrow> 'a keyed_scheme list" where
  "group_rows k rs = filter (\<lambda>r. key_of r = k) rs"

definition bio_agg :: "'a bio_agg_row_scheme list \<Rightarrow> bio_agg_row list" where
  "bio_agg rs =
     map (\<lambda>k. \<lparr>state = fst k, district = snd k,
               total_biometric_updates = sum_list (map total_biometric_updates (group_rows k rs))\<rparr>)
       (group_keys rs)"

text \<open>
  \<open>enrol_agg[['state', 'district', 'total_enrolment']]\<close>, as pairs of a key and
  its \<open>total_enrolment\<close>.
\<close>

definition enrol_agg :: "enrol_row list \<Rightarrow> ((string \<times> string) \<times> int) list" where
  "enrol_agg es =
     map (\<lambda>k. let g = group_rows k es
              in (k, sum_list (map age_0_5 g) + sum_list (map age_5_17 g)
                       + sum_list (map age_18_greater g)))
       (group_keys es)"

record merged_row = bio_agg_row +
  total_enrolment :: fval

record growth_row = merged_row +
  growth_rate :: fval

record scored_row = growth_row +
  update_density :: fval
  growth_multiplier :: fval
  AUPS :: fval

record metric_row = scored_row +
  AUPS_Normalized :: fval

text \<open>
  \<open>pd.merge(..., how='left')\<close>: every left row once per matching right row, and
  once with \<open>NaN\<close> when nothing matches.
\<close>

definition merge_left :: "(string \<times> string) \<Rightarrow> ((string \<times> string) \<times> 'v) list \<Rightarrow> 'v option list" where
  "merge_left k right =
     (case filter (\<lambda>e. fst e = k) right of [] \<Rightarrow> [None] | ms \<Rightarrow> map (\<lambda>e. Some (snd e)) ms)"

definition merge_enrol :: "bio_agg_row list \<Rightarrow> ((string \<times> string) \<times> int) list \<Rightarrow> merged_row list" where
  "merge_enrol left right =
     concat (map (\<lambda>l. map (\<lambda>v. \<lparr>state = state l, district = district l,
                                 total_biometric_updates = total_biometric_updates l,
                                 total_enrolment = (case v of None \<Rightarrow> NaN | Some e \<Rightarrow> of_count e)\<rparr>)
                         (merge_left (key_of l) right)) left)"

definition fillna :: "fval \<Rightarrow> fval \<Rightarrow> fval" where
  "fillna v x = (if x = NaN then v else x)"

text \<open>
  \<open>sort_values('date')\<close>: ascending, rows without a date last. pandas leaves the
  order of rows of equal date to the sorting algorithm; the model keeps their input
  order. The sums of the engine do not depend on that order, and what is proved of
  the validator's two halves holds of any two halves (\<open>validate_spec\<close>).
\<close>

definition sort_values_date :: "bio_row list \<Rightarrow> bio_row list" where
  "sort_values_date rs =
     sort_key (\<lambda>r. the (date r)) (dated rs) @ filter (\<lambda>r. date r = None) rs"

text \<open>The mean of a date column skips \<open>NaT\<close>; it is \<open>NaT\<close> when no row has a date.\<close>

definition mean_date :: "bio_row list \<Rightarrow> rat option" where
  "mean_date rs =
     (let ds = map (\<lambda>r. the (date r)) (dated rs)
      in if ds = [] then None else Some (of_int (sum_list ds) / of_nat (length ds)))"

fun date_gt :: "int option \<Rightarrow> rat option \<Rightarrow> bool" where
  "date_gt (Some d) (Some m) = (m < of_int d)"
| "date_gt _ _ = False"

fun date_le :: "int option \<Rightarrow> rat option \<Rightarrow> bool" where
  "date_le (Some d) (Some m) = (of_int d \<le> m)"
| "date_le _ _ = False"

definition growth_of_group :: "rat option \<Rightarrow> bio_row list \<Rightarrow> fval" where
  "growth_of_group mid_date grp =
     (let recent = sum_list (map total_biometric_updates (filter (\<lambda>r. date_gt (date r) mid_date) grp));
          past = sum_list (map total_biometric_updates (filter (\<lambda>r. date_le (date r) mid_date) grp))
      in if 0 < past then Finite (of_int (recent - past) / of_int past) else Finite 0)"

definition growth_rates :: "bio_row list \<Rightarrow> ((string \<times> string) \<times> fval) list" where
  "growth_rates rs =
     (let bio_sorted = sort_values_date rs;
          mid_date = mean_date bio_sorted
      in map (\<lambda>k. (k, growth_of_group mid_date (group_rows k bio_sorted))) (group_keys bio_sorted))"

definition with_growth :: "merged_row \<Rightarrow> fval \<Rightarrow> growth_row" where
  "with_growth m g =
     \<lparr>state = state m, district = district m,
      total_biometric_updates = total_biometric_updates m,
      total_enrolment = total_enrolment m, growth_rate = g\<rparr>"

definition merge_growth :: "merged_row list \<Rightarrow> ((string \<times> string) \<times> fval) list \<Rightarrow> growth_row list" where
  "merge_growth left right =
     concat (map (\<lambda>l. map (\<lambda>v. with_growth l (case v of None \<Rightarrow> NaN | Some g \<Rightarrow> g))
                         (merge_left (key_of l) right)) left)"

text \<open>\<open>Series.clip(lower, upper)\<close> keeps \<open>NaN\<close>.\<close>

definition clip :: "fval \<Rightarrow> fval \<Rightarrow> fval \<Rightarrow> fval" where
  "clip lower upper x = (if flt x lower then lower else if fgt x upper then upper else x)"

definition score :: "growth_row \<Rightarrow> scored_row" where
  "score m =
     (let density = fdiv (of_count (total_biometric_updates m)) (total_enrolment m);
          multiplier = fadd (Finite 1) (clip (Finite (- (1 / 2))) (Finite 2) (growth_rate m))
      in \<lparr>state = state m, district = district m,
          total_biometric_updates = total_biometric_updates m,
          total_enrolment = total_enrolment m, growth_rate = growth_rate m,
          update_density = density, growth_multiplier = multiplier,
          AUPS = fmul (fmul density multiplier) (Finite 1000)\<rparr>)"

text \<open>
  \<open>sort_values('AUPS', ascending=False)\<close>: descending, \<open>NaN\<close> last. The key turns
  the descending order of the non-\<open>NaN\<close> values into an ascending one.
\<close>

fun desc_key :: "fval \<Rightarrow> nat \<times> rat" where
  "desc_key PosInf = (0, 0)"
| "desc_key (Finite a) = (1, - a)"
| "desc_key NegInf = (2, 0)"
| "desc_key NaN = (3, 0)"

definition sort_values_AUPS :: "scored_row list \<Rightarrow> scored_row list" where
  "sort_values_AUPS ms = sort_key (\<lambda>m. desc_key (AUPS m)) ms"

definition normalize :: "fval \<Rightarrow> scored_row \<Rightarrow> metric_row" where
  "normalize max_score m =
     \<lparr>state = state m, district = district m,
      total_biometric_updates = total_biometric_updates m,
      total_enrolment = total_enrolment m, growth_rate = growth_rate m,
      update_density = update_density m, growth_multiplier = growth_multiplier m,
      AUPS = AUPS m,
      AUPS_Normalized =
        (if fgt max_score (Finite 0) then fmul (fdiv (AUPS m) max_score) (Finite 100)
         else Finite 0)\<rparr>"

text \<open>
  With a \<open>date\<close> column and no row at all, \<open>growth_df = pd.DataFrame([])\<close> has no
  column, and merging on \<open>['state', 'district']\<close> raises \<open>KeyError\<close>.
\<close>

definition calculate_district_metrics :: "bio_table \<Rightarrow> enrol_row list \<Rightarrow> error + metric_row list" where
  "calculate_district_metrics bio_df enrol_df =
     (let metrics = merge_enrol (bio_agg (rows bio_df)) (enrol_agg enrol_df);
          metrics = map (\<lambda>m. m\<lparr>total_enrolment := fillna (Finite 1) (total_enrolment m)\<rparr>) metrics;
          grown =
            (if has_date bio_df then
               (let growth_df = growth_rates (rows bio_df)
                in if growth_df = [] then Inl KeyError else Inr (merge_growth metrics growth_df))
             else Inr (map (\<lambda>m. with_growth m (Finite 0)) metrics))
      in case grown of
           Inl e \<Rightarrow> Inl e
         | Inr metrics \<Rightarrow>
             (let metrics = sort_values_AUPS (map score metrics);
                  max_score = nanmax (map AUPS metrics)
              in Inr (map (normalize max_score) metrics)))"

section \<open>Backtest Validator\<close>

text \<open>
  \<open>Series.quantile(q)\<close>: \<open>NaN\<close> entries are dropped, the rest is sorted, and the
  value at the fractional position \<open>q * (n - 1)\<close> is interpolated linearly between
  its two neighbours, in the way of numpy: from the lower neighbour for a fraction
  below one half and from the upper one otherwise.
\<close>

fun asc_key :: "fval \<Rightarrow> nat \<times> rat" where
  "asc_key NegInf = (0, 0)"
| "asc_key (Finite a) = (1, a)"
| "asc_key PosInf = (2, 0)"
| "asc_key NaN = (3, 0)"

definition lerp :: "fval \<Rightarrow> fval \<Rightarrow> rat \<Rightarrow> fval" where
  "lerp a b t =
     (let diff_b_a = fsub b a
      in if 1 / 2 \<le> t then fsub b (fmul diff_b_a (Finite (1 - t)))
         else fadd a (fmul diff_b_a (Finite t)))"

definition quantile :: "fval list \<Rightarrow> rat \<Rightarrow> fval" where
  "quantile xs q =
     (let vals = sort_key asc_key (filter notna xs);
          n = length vals
      in if n = 0 then NaN
         else
           (let virtual_index = of_nat (n - 1) * q;
                previous_index = nat \<lfloor>virtual_index\<rfloor>;
                next_index = min (previous_index + 1) (n - 1);
                gamma = virtual_index - of_int \<lfloor>virtual_index\<rfloor>
            in lerp (vals ! previous_index) (vals ! next_index) gamma))"

datatype merge_side = both | left_only

text \<open>
  \<open>t2_agg.merge(stressed_districts, how='left', indicator=True)\<close>: the
  \<open>_merge\<close> column says whether the key of the row is among the stressed ones.
\<close>

definition merge_indicator ::
  "bio_agg_row list \<Rightarrow> (string \<times> string) list \<Rightarrow> (bio_agg_row \<times> merge_side) list" where
  "merge_indicator left right =
     concat (map (\<lambda>l. case filter (\<lambda>k. k = key_of l) right of
                          [] \<Rightarrow> [(l, left_only)]
                        | ms \<Rightarrow> map (\<lambda>_. (l, both)) ms) left)"

definition mean_updates :: "merge_side \<Rightarrow> (bio_agg_row \<times> merge_side) list \<Rightarrow> fval" where
  "mean_updates side t2_agg =
     nanmean (map (\<lambda>p. of_count (total_biometric_updates (fst p)))
                (filter (\<lambda>p. snd p = side) t2_agg))"

record validation_result =
  is_valid :: bool
  stressed_avg_t2 :: fval
  normal_avg_t2 :: fval
  lift :: fval

datatype backtest_result =
    Degenerate (accuracy: int) (desc: string)
  | Validation validation_result

definition stressed_districts :: "metric_row list \<Rightarrow> (string \<times> string) list" where
  "stressed_districts t1_metrics =
     (let threshold = quantile (map AUPS t1_metrics) (8 / 10)
      in map key_of (filter (\<lambda>m. fge (AUPS m) threshold) t1_metrics))"

definition split_halves :: "bio_row list \<Rightarrow> bio_row list \<times> bio_row list" where
  "split_halves rs =
     (let bio_sorted = sort_values_date rs;
          mid_idx = length bio_sorted div 2
      in (take mid_idx bio_sorted, drop mid_idx bio_sorted))"

definition validate :: "metric_row list \<Rightarrow> bio_row list \<Rightarrow> validation_result" where
  "validate t1_metrics t2_df =
     (let t2_agg = merge_indicator (bio_agg t2_df) (stressed_districts t1_metrics);
          t2_stressed_vol = mean_updates both t2_agg;
          t2_normal_vol = mean_updates left_only t2_agg
      in \<lparr>is_valid = fgt t2_stressed_vol t2_normal_vol,
          stressed_avg_t2 = t2_stressed_vol,
          normal_avg_t2 = t2_normal_vol,
          lift = (if fgt t2_normal_vol (Finite 0) then fdiv t2_stressed_vol t2_normal_vol
                  else Finite 1)\<rparr>)"

definition run_backtest_validation :: "bio_table \<Rightarrow> enrol_row list \<Rightarrow> error + backtest_result" where
  "run_backtest_validation bio_df enrol_df =
     (if \<not> has_date bio_df then Inr (Degenerate 0 ''No date column'')
      else
        (let (t1_df, t2_df) = split_halves (rows bio_df)
         in if t1_df = [] \<or> t2_df = [] then Inr (Degenerate 0 ''Insufficient data split'')
            else
              (case calculate_district_metrics \<lparr>has_date = True, rows = t1_df\<rparr> enrol_df of
                 Inl e \<Rightarrow> Inl e
               | Inr t1_metrics \<Rightarrow> Inr (Validation (validate t1_metrics t2_df)))))"

section \<open>Feature Deriver\<close>

text \<open>
  The Feature Deriver works on whole data frames, before the columns the engines
  read exist. A frame is its number of rows and its columns in order, each a name
  and one cell per row. \<open>df.empty\<close> holds of a frame without rows or without
  columns. Reading a column that is not there raises \<open>KeyError\<close>; arithmetic is
  defined on the numeric cells and raises \<open>TypeError\<close> on the others.
\<close>

datatype cell = IntCell int | FloatCell fval | StrCell string | DateCell "int option"

record frame =
  nrows :: nat
  columns :: "(string \<times> cell list) list"

definition df_empty :: "frame \<Rightarrow> bool" where
  "df_empty df = (nrows df = 0 \<or> columns df = [])"

definition get_col :: "frame \<Rightarrow> string \<Rightarrow> error + cell list" where
  "get_col df c = (case map_of (columns df) c of None \<Rightarrow> Inl KeyError | Some v \<Rightarrow> Inr v)"

fun assign :: "string \<Rightarrow> cell list \<Rightarrow> (string \<times> cell list) list \<Rightarrow> (string \<times> cell list) list" where
  "assign c v [] = [(c, v)]"
| "assign c v (p # ps) = (if fst p = c then (c, v) # ps else p # assign c v ps)"

definition set_col :: "frame \<Rightarrow> string \<Rightarrow> cell list \<Rightarrow> frame" where
  "set_col df c v = df\<lparr>columns := assign c v (columns df)\<rparr>"

fun cell_add :: "cell \<Rightarrow> cell \<Rightarrow> error + cell" where
  "cell_add (IntCell a) (IntCell b) = Inr (IntCell (a + b))"
| "cell_add (IntCell a) (FloatCell b) = Inr (FloatCell (fadd (of_count a) b))"
| "cell_add (FloatCell a) (IntCell b) = Inr (FloatCell (fadd a (of_count b)))"
| "cell_add (FloatCell a) (FloatCell b) = Inr (FloatCell (fadd a b))"
| "cell_add _ _ = Inl TypeError"

fun to_float :: "cell \<Rightarrow> error + fval" where
  "to_float (IntCell a) = Inr (of_count a)"
| "to_float (FloatCell a) = Inr a"
| "to_float _ = Inl TypeError"

definition cell_div :: "cell \<Rightarrow> cell \<Rightarrow> error + cell" where
  "cell_div a b =
     (case to_float a of Inl e \<Rightarrow> Inl e | Inr x \<Rightarrow>
        (case to_float b of Inl e \<Rightarrow> Inl e | Inr y \<Rightarrow> Inr (FloatCell (fdiv x y))))"

fun col_op :: "(cell \<Rightarrow> cell \<Rightarrow> error + cell) \<Rightarrow> cell list \<Rightarrow> cell list \<Rightarrow> error + cell list" where
  "col_op f (x # xs) (y # ys) =
     (case f x y of Inl e \<Rightarrow> Inl e | Inr z \<Rightarrow>
        (case col_op f xs ys of Inl e \<Rightarrow> Inl e | Inr zs \<Rightarrow> Inr (z # zs)))"
| "col_op f _ _ = Inr []"

text \<open>
  One block of the source: \<open>df[tot] = df[a] + df[b]\<close> and then
  \<open>df[share] = df[num] / df[tot]\<close>.
\<close>

definition derive :: "frame \<Rightarrow> string \<Rightarrow> string \<Rightarrow> string \<Rightarrow> string \<Rightarrow> string \<Rightarrow> error + frame" where
  "derive df a b tot num share =
     (case get_col df a of Inl e \<Rightarrow> Inl e | Inr xa \<Rightarrow>
     (case get_col df b of Inl e \<Rightarrow> Inl e | Inr xb \<Rightarrow>
     (case col_op cell_add xa xb of Inl e \<Rightarrow> Inl e | Inr t \<Rightarrow>
       (let df = set_col df tot t
        in case get_col df num of Inl e \<Rightarrow> Inl e | Inr xn \<Rightarrow>
           (case get_col df tot of Inl e \<Rightarrow> Inl e | Inr xt \<Rightarrow>
           (case col_op cell_div xn xt of Inl e \<Rightarrow> Inl e | Inr s \<Rightarrow>
              Inr (set_col df share s)))))))"

definition feature_engineering :: "frame \<Rightarrow> frame \<Rightarrow> frame \<Rightarrow> error + frame \<times> frame \<times> frame" where
  "feature_engineering bio_df demo_df enrol_df =
     (case (if \<not> df_empty bio_df
            then derive bio_df ''bio_age_5_17'' ''bio_age_17_'' ''total_biometric_updates''
                   ''bio_age_5_17'' ''child_teen_update_share''
            else Inr bio_df) of
        Inl e \<Rightarrow> Inl e
      | Inr bio_df \<Rightarrow>
          (case (if \<not> df_empty demo_df
                 then derive demo_df ''demo_age_5_17'' ''demo_age_17_'' ''total_demographic_updates''
                        ''demo_age_17_'' ''adult_update_share''
                 else Inr demo_df) of
             Inl e \<Rightarrow> Inl e
           | Inr demo_df \<Rightarrow> Inr (bio_df, demo_df, enrol_df)))"

section \<open>Sample inputs and auxiliary notions\<close>

text \<open>
  The data model keeps every counter non-negative. A float that is \<open>NaN\<close> or a
  non-negative finite value:
\<close>

definition nonneg_or_nan :: "fval \<Rightarrow> bool" where
  "nonneg_or_nan x = (case x of Finite a \<Rightarrow> 0 \<le> a | NaN \<Rightarrow> True | _ \<Rightarrow> False)"

text \<open>Fourteen consecutive days of one district, each with the same total \<open>v\<close>.\<close>

definition flat_rows :: "int \<Rightarrow> bio_row list" where
  "flat_rows v =
     map (\<lambda>d. \<lparr>state = ''Karnataka'', district = ''Mysuru'',
                total_biometric_updates = v, date = Some d\<rparr>) [1..14]"

definition flat_table :: "int \<Rightarrow> bio_table" where
  "flat_table v = \<lparr>has_date = True, rows = flat_rows v\<rparr>"

text \<open>
  The growth rate in the words of the specification: the split point is the mean
  date of all dated rows of the whole input; a district's dated rows strictly after
  it are the recent ones, those at or before it the past ones.
\<close>

definition spec_mid_date :: "bio_row list \<Rightarrow> rat" where
  "spec_mid_date rs =
     of_int (sum_list (map (\<lambda>r. the (date r)) (dated rs))) / of_nat (length (dated rs))"

definition spec_growth_rate :: "bio_row list \<Rightarrow> string \<times> string \<Rightarrow> fval" where
  "spec_growth_rate rs k =
     (let district_rows = filter (\<lambda>r. key_of r = k) (dated rs);
          recent = sum_list (map total_biometric_updates
                     (filter (\<lambda>r. spec_mid_date rs < of_int (the (date r))) district_rows));
          past = sum_list (map total_biometric_updates
                     (filter (\<lambda>r. of_int (the (date r)) \<le> spec_mid_date rs) district_rows))
      in if 0 < past then Finite (of_int (recent - past) / of_int past) else Finite 0)"

text \<open>
  What the two joins of the engine come to, per district: the enrolment total that
  is looked up (1 for a district the enrolment table does not have), the growth
  rate that is looked up, and the rows before scoring.
\<close>

definition enrolment_of :: "enrol_row list \<Rightarrow> string \<times> string \<Rightarrow> fval" where
  "enrolment_of es k = (case map_of (enrol_agg es) k of None \<Rightarrow> Finite 1 | Some e \<Rightarrow> of_count e)"

definition growth_of :: "bio_table \<Rightarrow> string \<times> string \<Rightarrow> fval" where
  "growth_of bio k =
     (if has_date bio
      then (case map_of (growth_rates (rows bio)) k of None \<Rightarrow> NaN | Some g \<Rightarrow> g)
      else Finite 0)"

definition growth_row_of :: "bio_table \<Rightarrow> enrol_row list \<Rightarrow> bio_agg_row \<Rightarrow> growth_row" where
  "growth_row_of bio es l =
     \<lparr>state = state l, district = district l,
      total_biometric_updates = total_biometric_updates l,
      total_enrolment = enrolment_of es (key_of l),
      growth_rate = growth_of bio (key_of l)\<rparr>"

definition scored_rows :: "bio_table \<Rightarrow> enrol_row list \<Rightarrow> scored_row list" where
  "scored_rows bio es =
     sort_values_AUPS (map score (map (growth_row_of bio es) (bio_agg (rows bio))))"

text \<open>
  Two districts of one state over four days, one row without a date; an enrolment
  table that has only one of the districts, and one in which the other district
  has enrolment rows whose counters are all zero.
\<close>

definition bio_rec :: "string \<Rightarrow> int option \<Rightarrow> int \<Rightarrow> bio_row" where
  "bio_rec d t v =
     \<lparr>state = ''Karnataka'', district = d, total_biometric_updates = v, date = t\<rparr>"

definition enrol_rec :: "string \<Rightarrow> int \<Rightarrow> int \<Rightarrow> int \<Rightarrow> enrol_row" where
  "enrol_rec d a b c =
     \<lparr>state = ''Karnataka'', district = d, age_0_5 = a, age_5_17 = b, age_18_greater = c\<rparr>"

definition sample_bio :: bio_table where
  "sample_bio = \<lparr>has_date = True, rows =
     [bio_rec ''Mysuru'' (Some 1) 10, bio_rec ''Hassan'' (Some 2) 8, bio_rec ''Hassan'' None 5,
      bio_rec ''Hassan'' (Some 3) 4, bio_rec ''Mysuru'' (Some 4) 30]\<rparr>"

definition sample_enrol :: "enrol_row list" where
  "sample_enrol = [enrol_rec ''Mysuru'' 10 10 10]"

definition zero_enrol :: "enrol_row list" where
  "zero_enrol = [enrol_rec ''Mysuru'' 10 10 10, enrol_rec ''Hassan'' 0 0 0]"

text \<open>
  The validation in the words of the specification. The stressed districts are
  those whose T1 score is at or above the 80th percentile of the T1 scores; the
  T2 volume of a district is the sum of its updates in T2; the districts of T2
  are parted into stressed and normal ones, and the two means are taken over
  these two sets of districts. A mean over no district is undefined (\<open>NaN\<close>).
\<close>

definition t1_metrics :: "bio_table \<Rightarrow> enrol_row list \<Rightarrow> metric_row list" where
  "t1_metrics bio es =
     (case calculate_district_metrics \<lparr>has_date = True, rows = fst (split_halves (rows bio))\<rparr> es of
        Inl e \<Rightarrow> [] | Inr ms \<Rightarrow> ms)"

definition spec_stressed :: "metric_row list \<Rightarrow> (string \<times> string) set" where
  "spec_stressed t1m =
     key_of ` {m \<in> set t1m. fge (AUPS m) (quantile (map AUPS t1m) (8 / 10))}"

definition t2_volume :: "bio_row list \<Rightarrow> string \<times> string \<Rightarrow> int" where
  "t2_volume t2 k = sum_list (map total_biometric_updates (filter (\<lambda>r. key_of r = k) t2))"

definition spec_mean :: "(string \<times> string \<Rightarrow> int) \<Rightarrow> (string \<times> string) set \<Rightarrow> fval" where
  "spec_mean f S = (if S = {} then NaN else Finite (of_int (sum f S) / of_nat (card S)))"

definition spec_validation :: "metric_row list \<Rightarrow> bio_row list \<Rightarrow> validation_result" where
  "spec_validation t1m t2 =
     (let stressed = key_of ` set t2 \<inter> spec_stressed t1m;
          normal = key_of ` set t2 - spec_stressed t1m;
          stressed_mean = spec_mean (t2_volume t2) stressed;
          normal_mean = spec_mean (t2_volume t2) normal
      in \<lparr>is_valid = fgt stressed_mean normal_mean,
          stressed_avg_t2 = stressed_mean,
          normal_avg_t2 = normal_mean,
          lift = (if fgt normal_mean (Finite 0) then fdiv stressed_mean normal_mean
                  else Finite 1)\<rparr>)"

text \<open>Frames for the Feature Deriver: two biometric rows, and an enrolment frame.\<close>

definition bio_frame :: frame where
  "bio_frame = \<lparr>nrows = 2, columns =
     [(''state'', [StrCell ''Karnataka'', StrCell ''Karnataka'']),
      (''bio_age_5_17'', [IntCell 0, IntCell 3]),
      (''bio_age_17_'', [IntCell 0, IntCell 1])]\<rparr>"

definition empty_frame :: frame where
  "empty_frame = \<lparr>nrows = 0, columns = [(''demo_age_5_17'', []), (''demo_age_17_'', [])]\<rparr>"

definition enrol_frame :: frame where
  "enrol_frame = \<lparr>nrows = 1, columns =
     [(''age_0_5'', [IntCell 4]), (''age_5_17'', [IntCell 5]), (''age_18_greater'', [IntCell 6])]\<rparr>"

text \<open>
  Two rows of two districts: the earlier half of the history has only the first
  district, the later half only the second.
\<close>

definition disjoint_bio :: bio_table where
  "disjoint_bio = \<lparr>has_date = True, rows =
     [bio_rec ''Mysuru'' (Some 1) 10, bio_rec ''Hassan'' (Some 2) 8]\<rparr>"

text \<open>Numeric cells, and a frame whose two named columns exist and are numeric.\<close>

definition numeric :: "cell \<Rightarrow> bool" where
  "numeric c = (case c of IntCell _ \<Rightarrow> True | FloatCell _ \<Rightarrow> True | _ \<Rightarrow> False)"

definition numeric_cols :: "frame \<Rightarrow> string \<Rightarrow> string \<Rightarrow> bool" where
  "numeric_cols df a b =
     (case (get_col df a, get_col df b) of
        (Inr xa, Inr xb) \<Rightarrow> list_all numeric xa \<and> list_all numeric xb
      | _ \<Rightarrow> False)"

section \<open>Properties of the Forecaster\<close>

lemma trunc_mono: "a \<le> b \<Longrightarrow> trunc a \<le> trunc b"
proof -
  assume ab: "a \<le> b"
  consider (pp) "0 \<le> a" | (nn) "b < 0" | (np) "a < 0" "0 \<le> b" using ab by linarith
  then show ?thesis
  proof cases
    case pp
    with ab show ?thesis by (simp add: trunc_def floor_mono)
  next
    case nn
    with ab show ?thesis by (simp add: trunc_def ceiling_mono)
  next
    case np
    have "\<lceil>a\<rceil> \<le> 0" using np(1) by (simp add: ceiling_le_zero)
    moreover have "0 \<le> \<lfloor>b\<rfloor>" using np(2) by simp
    ultimately have "\<lceil>a\<rceil> \<le> \<lfloor>b\<rfloor>" by (rule order_trans)
    then show ?thesis using np by (simp add: trunc_def)
  qed
qed

lemma nonneg_or_nan_fmul:
  "nonneg_or_nan a \<Longrightarrow> nonneg_or_nan b \<Longrightarrow> nonneg_or_nan (fmul a b)"
  by (cases a; cases b) (simp_all add: nonneg_or_nan_def)

lemma growth_factor_of_nonneg: "nonneg_or_nan (growth_factor_of a)"
  by (cases a) (auto simp: growth_factor_of_def py_min_def py_max_def fgt_def nonneg_or_nan_def)

lemma forecast_loop_band:
  assumes "nonneg_or_nan gf" and "nonneg_or_nan cv" and "\<forall>i\<in>set idxs. 0 \<le> i"
    and "forecast_loop idxs ld gf cv = Inr ps" and "p \<in> set ps"
  shows "lower_ci p \<le> forecast p \<and> forecast p \<le> upper_ci p"
  using assms
proof (induction idxs arbitrary: cv ps)
  case Nil
  then show ?case by simp
next
  case (Cons i js)
  let ?cv = "fmul cv gf"
  have nn: "nonneg_or_nan ?cv" using Cons.prems(1,2) by (simp add: nonneg_or_nan_fmul)
  let ?u = "uncertainty i"
  have u: "0 \<le> ?u" using Cons.prems(3) by (simp add: uncertainty_def)
  from Cons.prems(4) obtain f lo hi qs where
      f: "py_int ?cv = Inr f"
    and lo: "py_int (fmul ?cv (fsub (Finite 1) (Finite ?u))) = Inr lo"
    and hi: "py_int (fmul ?cv (fadd (Finite 1) (Finite ?u))) = Inr hi"
    and rest: "forecast_loop js ld gf ?cv = Inr qs"
    and ps: "ps = \<lparr>fdate = ld + i, forecast = f, lower_ci = lo, upper_ci = hi\<rparr> # qs"
    by (auto simp: Let_def split: sum.splits)
  from f obtain c where c: "?cv = Finite c" by (cases ?cv) auto
  with nn have c0: "0 \<le> c" by (simp add: nonneg_or_nan_def)
  have fv: "f = trunc c" using f c by simp
  have lov: "lo = trunc (c * (1 - ?u))" using lo c by (simp add: fsub_def)
  have hiv: "hi = trunc (c * (1 + ?u))" using hi c by simp
  have "c * (1 - ?u) \<le> c * 1" using u c0 by (intro mult_left_mono) auto
  then have le1: "lo \<le> f" unfolding lov fv by (intro trunc_mono) simp
  have "c * 1 \<le> c * (1 + ?u)" using u c0 by (intro mult_left_mono) auto
  then have le2: "f \<le> hi" unfolding hiv fv by (intro trunc_mono) simp
  show ?case
  proof (cases "p \<in> set qs")
    case True
    then show ?thesis using Cons.IH [OF Cons.prems(1) nn _ rest] Cons.prems(3) by simp
  next
    case False
    then have "p = \<lparr>fdate = ld + i, forecast = f, lower_ci = lo, upper_ci = hi\<rparr>"
      using Cons.prems(5) ps by simp
    then show ?thesis using le1 le2 by simp
  qed
qed

lemma daily_totals_nonneg:
  assumes "\<forall>r\<in>set rs. 0 \<le> total_biometric_updates r" and "x \<in> set (daily_totals rs)"
  shows "0 \<le> snd x"
  using assms by (auto simp: daily_totals_def intro!: sum_list_nonneg)

lemma set_tail: "set (tail n xs) \<subseteq> set xs"
  by (simp add: tail_def set_drop_subset)

lemma length_tail: "length (tail n xs) = min n (length xs)"
  by (auto simp: tail_def)

lemma forecast_loop_total:
  "\<exists>ps. forecast_loop idxs ld (Finite g) (Finite c) = Inr ps \<and> length ps = length idxs"
proof (induction idxs arbitrary: c)
  case Nil
  show ?case by simp
next
  case (Cons i js)
  from Cons.IH [of "c * g"] obtain qs where
    "forecast_loop js ld (Finite g) (Finite (c * g)) = Inr qs" "length qs = length js" by blast
  then show ?case by (simp add: Let_def fsub_def)
qed

lemma pct_entry:
  assumes "0 \<le> x" "0 \<le> y"
  shows "pct x y \<noteq> NegInf"
    and "x \<noteq> 0 \<or> y \<noteq> 0 \<Longrightarrow> pct x y \<noteq> NaN"
  using assms by (auto simp: pct_def of_count_def fsub_def inf_of_sign_def)

lemma set_pct_change_Cons2:
  "set (pct_change (x # y # zs)) = insert (pct x y) (set (pct_change (y # zs)))"
  by auto

lemma pct_change_no_neginf:
  "\<forall>x\<in>set xs. 0 \<le> x \<Longrightarrow> v \<in> set (pct_change xs) \<Longrightarrow> v \<noteq> NegInf"
proof (induction xs arbitrary: v rule: induct_list012)
  case 1
  then show ?case by simp
next
  case (2 x)
  then show ?case by auto
next
  case (3 x y zs)
  from "3.prems"(2) consider "v = pct x y" | "v \<in> set (pct_change (y # zs))"
    unfolding set_pct_change_Cons2 by blast
  then show ?case
  proof cases
    case 1 then show ?thesis using pct_entry(1) [of x y] "3.prems"(1) by simp
  next
    case 2 then show ?thesis using "3.IH"(2) "3.prems"(1) by simp
  qed
qed

lemma pct_change_some_value:
  "\<forall>x\<in>set xs. 0 \<le> x \<Longrightarrow> 2 \<le> length xs \<Longrightarrow> \<exists>x\<in>set xs. x \<noteq> 0
     \<Longrightarrow> \<exists>v\<in>set (pct_change xs). v \<noteq> NaN"
proof (induction xs rule: induct_list012)
  case 1
  then show ?case by simp
next
  case (2 x)
  then show ?case by simp
next
  case (3 x y zs)
  show ?case
  proof (cases "x \<noteq> 0 \<or> y \<noteq> 0")
    case True
    then have "pct x y \<noteq> NaN"
      using pct_entry(2) [of x y] "3.prems"(1) by simp
    then show ?thesis unfolding set_pct_change_Cons2 by blast
  next
    case False
    with "3.prems"(3) obtain z where z: "z \<in> set zs" "z \<noteq> 0" by auto
    then have "2 \<le> length (y # zs)" by (cases zs) auto
    moreover have "\<exists>x\<in>set (y # zs). x \<noteq> 0" using z by auto
    ultimately obtain v where "v \<in> set (pct_change (y # zs))" "v \<noteq> NaN"
      using "3.IH"(2) "3.prems"(1) by auto
    then show ?thesis unfolding set_pct_change_Cons2 by blast
  qed
qed

lemma foldr_fadd_no_neginf:
  "\<forall>v\<in>set vs. v \<noteq> NegInf \<and> v \<noteq> NaN \<Longrightarrow>
     foldr fadd vs (Finite 0) \<noteq> NegInf \<and> foldr fadd vs (Finite 0) \<noteq> NaN"
proof (induction vs)
  case Nil
  then show ?case by simp
next
  case (Cons v vs)
  then have "foldr fadd vs (Finite 0) \<noteq> NegInf \<and> foldr fadd vs (Finite 0) \<noteq> NaN" by simp
  moreover have "v \<noteq> NegInf \<and> v \<noteq> NaN" using Cons.prems by simp
  ultimately show ?case
    by (cases v; cases "foldr fadd vs (Finite 0)") simp_all
qed

lemma nanmean_defined:
  assumes "\<forall>v\<in>set vs. v \<noteq> NegInf" and "\<exists>v\<in>set vs. v \<noteq> NaN"
  shows "nanmean vs \<noteq> NaN"
proof -
  let ?ys = "filter notna vs"
  have ne: "?ys \<noteq> []" using assms(2) by (auto simp: filter_empty_conv notna_def)
  have "\<forall>v\<in>set ?ys. v \<noteq> NegInf \<and> v \<noteq> NaN" using assms(1) by (auto simp: notna_def)
  then have s: "foldr fadd ?ys (Finite 0) \<noteq> NegInf \<and> foldr fadd ?ys (Finite 0) \<noteq> NaN"
    by (rule foldr_fadd_no_neginf)
  have len: "(of_nat (length ?ys) :: rat) > 0" using ne by simp
  have "nanmean vs = fdiv (foldr fadd ?ys (Finite 0)) (Finite (of_nat (length ?ys)))"
    using ne by (simp add: nanmean_def nansum_def Let_def)
  also have "\<dots> \<noteq> NaN" using s len
    by (cases "foldr fadd ?ys (Finite 0)") (auto simp: inf_of_sign_def)
  finally show ?thesis .
qed

lemma growth_factor_of_finite:
  assumes "a \<noteq> NaN"
  shows "\<exists>g. growth_factor_of a = Finite g"
proof -
  have "growth_factor_of a \<noteq> NaN \<and> growth_factor_of a \<noteq> PosInf \<and> growth_factor_of a \<noteq> NegInf"
    using assms by (cases a) (auto simp: growth_factor_of_def py_min_def py_max_def fgt_def)
  then show ?thesis by (cases "growth_factor_of a") auto
qed

text \<open>The number of daily totals is the number of distinct dates of the rows.\<close>

lemma length_daily_totals:
  "length (daily_totals rs) = card {d. \<exists>r\<in>set rs. date r = Some d}"
proof -
  have "set (map (\<lambda>r. the (date r)) (dated rs)) = {d. \<exists>r\<in>set rs. date r = Some d}"
    by (force simp: dated_def)
  then have "card {d. \<exists>r\<in>set rs. date r = Some d} = length (remdups (map (\<lambda>r. the (date r)) (dated rs)))"
    by (metis length_remdups_card_conv)
  then show ?thesis by (simp add: daily_totals_def dates_of_def)
qed

text \<open>
  The three cases in which the Forecaster returns the empty result, and the size
  of its result in the others: with non-negative counters, a call whose trailing
  14 daily totals are not all zero returns one point per day of the horizon.
\<close>

lemma forecaster_empty_cases:
  assumes "rows (select_state df st) = [] \<or> \<not> has_date df
     \<or> length (daily_totals (rows (select_state df st))) < 14"
  shows "generate_forecast df st days = Inr []"
  using assms by (auto simp: generate_forecast_def Let_def length_tail select_state_def)

lemma forecaster_returns_days_points:
  assumes nonneg: "\<forall>r\<in>set (rows df). 0 \<le> total_biometric_updates r"
    and ne: "rows (select_state df st) \<noteq> []" and hd: "has_date df"
    and len: "14 \<le> length (daily_totals (rows (select_state df st)))"
    and nz: "\<exists>x\<in>set (tail 14 (daily_totals (rows (select_state df st)))). snd x \<noteq> 0"
  shows "\<exists>ps. generate_forecast df st days = Inr ps \<and> length ps = nat days"
proof -
  define df' where "df' = select_state df st"
  define l14 where "l14 = tail 14 (daily_totals (rows df'))"
  have nonneg': "\<forall>r\<in>set (rows df'). 0 \<le> total_biometric_updates r"
    using nonneg by (simp add: df'_def select_state_def)
  have hd': "has_date df'" using hd by (simp add: df'_def select_state_def)
  have l14_len: "length l14 = 14" using len by (simp add: l14_def df'_def length_tail)
  have l14_nonneg: "\<forall>x\<in>set (map snd l14). 0 \<le> x"
    using daily_totals_nonneg [OF nonneg'] set_tail [of 14 "daily_totals (rows df')"]
    by (auto simp: l14_def)
  have "\<exists>x\<in>set (map snd l14). x \<noteq> 0" using nz by (auto simp: l14_def df'_def)
  then have "\<exists>v\<in>set (pct_change (map snd l14)). v \<noteq> NaN"
    using pct_change_some_value [OF l14_nonneg] l14_len by simp
  moreover have "\<forall>v\<in>set (pct_change (map snd l14)). v \<noteq> NegInf"
    using pct_change_no_neginf [OF l14_nonneg] by blast
  ultimately have "nanmean (pct_change (map snd l14)) \<noteq> NaN" by (intro nanmean_defined)
  then obtain g where g: "growth_factor_of (nanmean (pct_change (map snd l14))) = Finite g"
    using growth_factor_of_finite by blast
  obtain ps where ps: "forecast_loop [1..days] (fst (last l14)) (Finite g)
      (Finite (of_int (snd (last l14)))) = Inr ps" "length ps = length [1..days]"
    using forecast_loop_total by blast
  have "generate_forecast df st days = Inr ps"
    using ne hd' l14_len g ps(1)
    by (simp add: generate_forecast_def Let_def df'_def [symmetric] l14_def [symmetric] of_count_def)
  then show ?thesis using ps(2) by auto
qed

text \<open>
  C8. Every point the Forecaster produces has its forecast inside its band:
  \<open>lower_ci \<le> forecast \<le> upper_ci\<close>. The counters of the input are non-negative, as
  the data model says.
\<close>

theorem forecaster_band_ordering:
  assumes nonneg: "\<forall>r\<in>set (rows df). 0 \<le> total_biometric_updates r"
    and res: "generate_forecast df st days = Inr ps"
    and p: "p \<in> set ps"
  shows "lower_ci p \<le> forecast p \<and> forecast p \<le> upper_ci p"
proof -
  define df' where "df' = select_state df st"
  have nonneg': "\<forall>r\<in>set (rows df'). 0 \<le> total_biometric_updates r"
    using nonneg by (simp add: df'_def select_state_def)
  define l14 where "l14 = tail 14 (daily_totals (rows df'))"
  show ?thesis
  proof (cases "rows df' = [] \<or> \<not> has_date df' \<or> length l14 < 14")
    case True
    then have "ps = []" using res
      by (auto simp: generate_forecast_def Let_def df'_def l14_def split: if_splits)
    then show ?thesis using p by simp
  next
    case False
    then have loop: "forecast_loop [1..days] (fst (last l14))
        (growth_factor_of (nanmean (pct_change (map snd l14)))) (of_count (snd (last l14))) = Inr ps"
      using res
      by (auto simp: generate_forecast_def Let_def df'_def l14_def split: if_splits)
    from False have "l14 \<noteq> []" by auto
    then have "last l14 \<in> set (daily_totals (rows df'))"
      using set_tail [of 14 "daily_totals (rows df')"] last_in_set [of l14] by (auto simp: l14_def)
    then have "0 \<le> snd (last l14)" using daily_totals_nonneg [OF nonneg'] by blast
    then have cv: "nonneg_or_nan (of_count (snd (last l14)))"
      by (simp add: nonneg_or_nan_def of_count_def)
    show ?thesis
      by (rule forecast_loop_band [OF growth_factor_of_nonneg cv _ loop p]) simp
  qed
qed

theorem forecaster_band_ordering_witness:
  "generate_forecast (flat_table 100) ''All'' 2 =
     Inr [\<lparr>fdate = 15, forecast = 100, lower_ci = 94, upper_ci = 106\<rparr>,
          \<lparr>fdate = 16, forecast = 100, lower_ci = 93, upper_ci = 107\<rparr>]
   \<and> lower_ci \<lparr>fdate = 16, forecast = 100, lower_ci = 93, upper_ci = 107\<rparr> \<le> 100
   \<and> 100 \<le> upper_ci \<lparr>fdate = 16, forecast = 100, lower_ci = 93, upper_ci = 107\<rparr>"
proof -
  have nonneg: "\<forall>r\<in>set (rows (flat_table 100)). 0 \<le> total_biometric_updates r"
    by (auto simp: flat_table_def flat_rows_def)
  have res: "generate_forecast (flat_table 100) ''All'' 2 =
     Inr [\<lparr>fdate = 15, forecast = 100, lower_ci = 94, upper_ci = 106\<rparr>,
          \<lparr>fdate = 16, forecast = 100, lower_ci = 93, upper_ci = 107\<rparr>]"
    by code_simp
  have "\<lparr>fdate = 16, forecast = 100, lower_ci = 93, upper_ci = 107\<rparr>
      \<in> set [\<lparr>fdate = 15, forecast = 100, lower_ci = 94, upper_ci = 106\<rparr>,
          \<lparr>fdate = 16, forecast = 100, lower_ci = 93, upper_ci = 107\<rparr>]"
    by simp
  from forecaster_band_ordering [OF nonneg res this] res show ?thesis by simp
qed

text \<open>
  C6. The Forecaster is claimed to return the empty result for an empty table, a
  table without dates or one with fewer than 14 distinct dated daily totals, and
  exactly \<open>days\<close> points in all other cases. The table \<open>flat_table 0\<close> is none of
  the three (it has rows, a date column and 14 daily totals), and yet the call
  returns no result at all: all 14 totals are zero, every day-over-day change is
  \<open>0 / 0\<close>, the mean change is \<open>NaN\<close>, \<open>min\<close> and \<open>max\<close> pass it on, and
  \<open>int(current_val)\<close> raises.
\<close>

theorem forecaster_no_points_on_zero_totals:
  "rows (select_state (flat_table 0) ''Karnataka'') \<noteq> [] \<and> has_date (flat_table 0)
   \<and> length (daily_totals (rows (select_state (flat_table 0) ''Karnataka''))) = 14
   \<and> (\<forall>ps. generate_forecast (flat_table 0) ''Karnataka'' 7 \<noteq> Inr ps)"
proof -
  have "generate_forecast (flat_table 0) ''Karnataka'' 7 = Inl ValueError" by code_simp
  moreover have "rows (select_state (flat_table 0) ''Karnataka'') \<noteq> [] \<and> has_date (flat_table 0)
   \<and> length (daily_totals (rows (select_state (flat_table 0) ''Karnataka''))) = 14" by code_simp
  ultimately show ?thesis by simp
qed

text \<open>
  For 14 identical daily values \<open>v\<close> other than zero the mean change is 0, every
  forecast is \<open>v\<close>, and the band is cut from \<open>v\<close> by an uncertainty that grows
  with the day.
\<close>

lemma uncertainty_strict_mono: "i < j \<Longrightarrow> uncertainty i < uncertainty j"
  by (simp add: uncertainty_def)

lemma pct_change_replicate:
  "v \<noteq> 0 \<Longrightarrow> pct_change (replicate (Suc n) v) = NaN # replicate n (Finite 0)"
proof -
  assume v: "v \<noteq> 0"
  have "pct v v = Finite 0" using v by (simp add: pct_def of_count_def fsub_def)
  moreover have "zip (v # replicate n v) (replicate n v) = replicate n (v, v)"
    using zip_replicate [of "Suc n" v n v] by simp
  ultimately show ?thesis by simp
qed

lemma foldr_fadd_zeros: "foldr fadd (replicate n (Finite 0)) (Finite 0) = Finite 0"
  by (induction n) simp_all

lemma nanmean_zeros: "nanmean (NaN # replicate (Suc n) (Finite 0)) = Finite 0"
proof -
  have "filter notna (NaN # replicate (Suc n) (Finite 0)) = replicate (Suc n) (Finite 0)"
    by (simp add: notna_def)
  then show ?thesis
    using foldr_fadd_zeros [of "Suc n"]
    by (simp add: nanmean_def nansum_def Let_def notna_def del: replicate.simps)
qed

lemma trunc_of_int: "trunc (of_int v) = v"
  by (simp add: trunc_def)

lemma forecast_loop_unit_growth:
  "forecast_loop idxs ld (Finite 1) (Finite (of_int v)) =
     Inr (map (\<lambda>i. \<lparr>fdate = ld + i, forecast = v,
                     lower_ci = trunc (of_int v * (1 - uncertainty i)),
                     upper_ci = trunc (of_int v * (1 + uncertainty i))\<rparr>) idxs)"
  by (induction idxs) (simp_all add: Let_def fsub_def trunc_of_int)

lemma forecaster_identical_values:
  assumes hd: "has_date df"
    and same: "map snd (tail 14 (daily_totals (rows (select_state df st)))) = replicate 14 v"
    and v: "v \<noteq> 0"
  shows "nanmean (pct_change (map snd (tail 14 (daily_totals (rows (select_state df st)))))) = Finite 0
    \<and> generate_forecast df st days =
        Inr (map (\<lambda>i. \<lparr>fdate = fst (last (tail 14 (daily_totals (rows (select_state df st))))) + i,
                        forecast = v,
                        lower_ci = trunc (of_int v * (1 - uncertainty i)),
                        upper_ci = trunc (of_int v * (1 + uncertainty i))\<rparr>) [1..days])"
proof -
  define df' where "df' = select_state df st"
  define l14 where "l14 = tail 14 (daily_totals (rows df'))"
  have same': "map snd l14 = replicate 14 v" using same by (simp add: l14_def df'_def)
  then have len: "length l14 = 14" using length_map [of snd l14] by simp
  then have l14_ne: "l14 \<noteq> []" by auto
  have "rows df' \<noteq> []"
  proof
    assume "rows df' = []"
    then have "l14 = []" by (simp add: l14_def daily_totals_def dates_of_def dated_def tail_def)
    with l14_ne show False by simp
  qed
  moreover have hd': "has_date df'" using hd by (simp add: df'_def select_state_def)
  moreover have avg: "nanmean (pct_change (map snd l14)) = Finite 0"
    unfolding same' using pct_change_replicate [OF v, of 13] nanmean_zeros [of 12]
    by (simp add: eval_nat_numeral)
  moreover have "growth_factor_of (Finite 0) = Finite 1"
    by (simp add: growth_factor_of_def py_min_def py_max_def fgt_def)
  moreover have "snd (last l14) = v"
  proof -
    have "snd (last l14) = last (map snd l14)" using l14_ne by (simp add: last_map)
    also have "\<dots> = v" unfolding same' by simp
    finally show ?thesis .
  qed
  ultimately have "generate_forecast df st days =
      forecast_loop [1..days] (fst (last l14)) (Finite 1) (Finite (of_int v))"
    using len
    by (simp add: generate_forecast_def Let_def df'_def [symmetric] l14_def [symmetric] of_count_def)
  then show ?thesis using avg
    by (simp add: forecast_loop_unit_growth l14_def df'_def)
qed

lemma forecaster_example_100:
  "growth_factor_of (nanmean (pct_change (replicate 14 100))) = Finite 1
   \<and> uncertainty 1 = 6 / 100
   \<and> generate_forecast (flat_table 100) ''All'' 1 =
       Inr [\<lparr>fdate = 15, forecast = 100, lower_ci = 94, upper_ci = 106\<rparr>]"
  by code_simp

text \<open>
  C7. The example of the claim (14 totals of 100) is as the claim says, and so is
  its general part for every \<open>v\<close> other than zero (the two lemmas above). At
  \<open>v = 0\<close> the general part fails: the 14 trailing totals are identical, the mean
  change is \<open>NaN\<close> and not 0, and no forecast point is produced, since the call
  ends in \<open>ValueError\<close>.
\<close>

theorem forecaster_identical_zero_values:
  "map snd (tail 14 (daily_totals (rows (flat_table 0)))) = replicate 14 0
   \<and> nanmean (pct_change (replicate 14 0)) = NaN
   \<and> generate_forecast (flat_table 0) ''All'' 1 = Inl ValueError"
  by code_simp

text \<open>
  C4. No core operation is claimed to end in an arithmetic fault on tables of
  non-negative counters. The Forecaster does: on 14 days of zero updates the
  unguarded \<open>0 / 0\<close> of the day-over-day change reaches \<open>int(...)\<close> as \<open>NaN\<close>
  and the call raises \<open>ValueError\<close>.
\<close>

theorem forecaster_raises_on_zero_totals:
  "list_all (\<lambda>r. 0 \<le> total_biometric_updates r) (rows (flat_table 0))
   \<and> generate_forecast (flat_table 0) ''All'' 30 = Inl ValueError"
  by code_simp

section \<open>Properties of the District Metrics Engine\<close>

lemma distinct_group_keys: "distinct (group_keys rs)"
  by (simp add: group_keys_def)

lemma set_group_keys: "set (group_keys rs) = key_of ` set rs"
  by (simp add: group_keys_def)

lemma filter_fst_distinct:
  "distinct (map fst ps) \<Longrightarrow>
     filter (\<lambda>e. fst e = k) ps = (case map_of ps k of None \<Rightarrow> [] | Some v \<Rightarrow> [(k, v)])"
proof (induction ps)
  case Nil
  then show ?case by simp
next
  case (Cons p ps)
  show ?case
  proof (cases "fst p = k")
    case True
    then have "k \<notin> fst ` set ps" using Cons.prems by auto
    then have "filter (\<lambda>e. fst e = k) ps = []" by (auto simp: filter_empty_conv)
    then show ?thesis using True by (cases p) auto
  next
    case False
    then show ?thesis using Cons by (cases p) auto
  qed
qed

lemma merge_left_distinct:
  "distinct (map fst right) \<Longrightarrow> merge_left k right = [map_of right k]"
  by (simp add: merge_left_def filter_fst_distinct split: option.splits)

lemma map_fst_enrol_agg: "map fst (enrol_agg es) = group_keys es"
  by (simp add: enrol_agg_def Let_def comp_def)

lemma map_fst_growth_rates: "map fst (growth_rates rs) = group_keys (sort_values_date rs)"
  by (simp add: growth_rates_def Let_def comp_def)

lemma merge_enrol_enrol_agg:
  "map (\<lambda>m. m\<lparr>total_enrolment := fillna (Finite 1) (total_enrolment m)\<rparr>)
       (merge_enrol ls (enrol_agg es)) =
   map (\<lambda>l. \<lparr>state = state l, district = district l,
              total_biometric_updates = total_biometric_updates l,
              total_enrolment = enrolment_of es (key_of l)\<rparr>) ls"
proof -
  have d: "distinct (map fst (enrol_agg es))"
    by (simp add: map_fst_enrol_agg distinct_group_keys)
  show ?thesis
    by (induction ls)
      (auto simp: merge_enrol_def merge_left_distinct [OF d] enrolment_of_def fillna_def
        of_count_def split: option.splits)
qed

lemma merge_growth_growth_rates:
  "merge_growth ms (growth_rates rs) =
     map (\<lambda>m. with_growth m (case map_of (growth_rates rs) (key_of m) of None \<Rightarrow> NaN | Some g \<Rightarrow> g)) ms"
proof -
  have d: "distinct (map fst (growth_rates rs))"
    by (simp add: map_fst_growth_rates distinct_group_keys)
  show ?thesis
    by (induction ms) (auto simp: merge_growth_def merge_left_distinct [OF d])
qed

lemma metrics_rows:
  assumes "calculate_district_metrics bio es = Inr ms"
  shows "ms = map (normalize (nanmax (map AUPS (scored_rows bio es)))) (scored_rows bio es)"
proof -
  let ?m0 = "map (\<lambda>m. m\<lparr>total_enrolment := fillna (Finite 1) (total_enrolment m)\<rparr>)
               (merge_enrol (bio_agg (rows bio)) (enrol_agg es))"
  have g: "(if has_date bio then merge_growth ?m0 (growth_rates (rows bio))
            else map (\<lambda>m. with_growth m (Finite 0)) ?m0)
         = map (growth_row_of bio es) (bio_agg (rows bio))"
    unfolding merge_enrol_enrol_agg merge_growth_growth_rates
    by (simp add: growth_row_of_def growth_of_def with_growth_def key_of_def comp_def)
  show ?thesis
  proof (cases "has_date bio")
    case True
    with assms have ne: "growth_rates (rows bio) \<noteq> []"
      by (auto simp: calculate_district_metrics_def Let_def split: if_splits)
    from assms True ne g show ?thesis
      by (simp add: calculate_district_metrics_def Let_def scored_rows_def del: map_map)
  next
    case False
    with assms g show ?thesis
      by (simp add: calculate_district_metrics_def Let_def scored_rows_def del: map_map)
  qed
qed


lemma mset_sort_values_date: "mset (sort_values_date rs) = mset rs"
proof -
  have "filter (\<lambda>r. date r = None) rs = filter (\<lambda>r. \<not> date r \<noteq> None) rs" by simp
  then show ?thesis
    unfolding sort_values_date_def dated_def by (simp del: not_None_eq)
qed

lemma sum_list_filter_perm:
  fixes f :: "'a \<Rightarrow> int"
  assumes "mset xs = mset ys"
  shows "sum_list (map f (filter P xs)) = sum_list (map f (filter P ys))"
proof -
  have "mset (map f (filter P xs)) = mset (map f (filter P ys))"
    using assms by (metis mset_filter mset_map)
  then show ?thesis by (metis sum_mset_sum_list)
qed

lemma length_filter_perm:
  assumes "mset xs = mset ys"
  shows "length (filter P xs) = length (filter P ys)"
  using assms by (metis mset_filter size_mset)

lemma mean_date_perm: "mset xs = mset ys \<Longrightarrow> mean_date xs = mean_date ys"
  unfolding mean_date_def dated_def Let_def
  using sum_list_filter_perm [of xs ys "\<lambda>r. the (date r)" "\<lambda>r. date r \<noteq> None"]
    length_filter_perm [of xs ys "\<lambda>r. date r \<noteq> None"]
  by (simp del: not_None_eq) (metis length_0_conv)

lemma mean_date_Some:
  assumes "r \<in> set rs" "date r = Some d"
  shows "mean_date rs = Some (spec_mid_date rs)"
proof -
  have "r \<in> set (dated rs)" using assms by (simp add: dated_def)
  then have "dated rs \<noteq> []" by auto
  then show ?thesis by (simp add: mean_date_def spec_mid_date_def Let_def)
qed

lemma growth_of_group_spec:
  "growth_of_group (mean_date (sort_values_date rs)) (group_rows k (sort_values_date rs))
     = spec_growth_rate rs k"
proof -
  let ?s = "sort_values_date rs"
  let ?tbu = "total_biometric_updates :: bio_row \<Rightarrow> int"
  have p: "mset ?s = mset rs" by (rule mset_sort_values_date)
  have md: "mean_date ?s = mean_date rs" by (rule mean_date_perm [OF p])
  have recent: "sum_list (map ?tbu (filter (\<lambda>r. date_gt (date r) (mean_date rs)) (group_rows k ?s)))
      = sum_list (map ?tbu (filter (\<lambda>r. spec_mid_date rs < of_int (the (date r)))
          (filter (\<lambda>r. key_of r = k) (dated rs))))"
  proof -
    have "sum_list (map ?tbu (filter (\<lambda>r. date_gt (date r) (mean_date rs)) (group_rows k ?s)))
        = sum_list (map ?tbu (filter (\<lambda>r. key_of r = k \<and> date_gt (date r) (mean_date rs)) ?s))"
      by (simp add: group_rows_def conj_commute)
    also have "\<dots> = sum_list (map ?tbu (filter (\<lambda>r. key_of r = k \<and> date_gt (date r) (mean_date rs)) rs))"
      by (rule sum_list_filter_perm [OF p])
    also have "filter (\<lambda>r. key_of r = k \<and> date_gt (date r) (mean_date rs)) rs
        = filter (\<lambda>r. date r \<noteq> None \<and> key_of r = k \<and> spec_mid_date rs < of_int (the (date r))) rs"
    proof (rule filter_cong [OF refl])
      fix r assume r: "r \<in> set rs"
      show "(key_of r = k \<and> date_gt (date r) (mean_date rs))
          = (date r \<noteq> None \<and> key_of r = k \<and> spec_mid_date rs < of_int (the (date r)))"
      proof (cases "date r")
        case None
        then show ?thesis by simp
      next
        case (Some d)
        then show ?thesis using mean_date_Some [OF r Some] by auto
      qed
    qed
    also have "\<dots> = filter (\<lambda>r. spec_mid_date rs < of_int (the (date r)))
          (filter (\<lambda>r. key_of r = k) (dated rs))"
      by (simp add: dated_def conj_commute conj_left_commute del: not_None_eq)
    finally show ?thesis .
  qed
  have past: "sum_list (map ?tbu (filter (\<lambda>r. date_le (date r) (mean_date rs)) (group_rows k ?s)))
      = sum_list (map ?tbu (filter (\<lambda>r. of_int (the (date r)) \<le> spec_mid_date rs)
          (filter (\<lambda>r. key_of r = k) (dated rs))))"
  proof -
    have "sum_list (map ?tbu (filter (\<lambda>r. date_le (date r) (mean_date rs)) (group_rows k ?s)))
        = sum_list (map ?tbu (filter (\<lambda>r. key_of r = k \<and> date_le (date r) (mean_date rs)) ?s))"
      by (simp add: group_rows_def conj_commute)
    also have "\<dots> = sum_list (map ?tbu (filter (\<lambda>r. key_of r = k \<and> date_le (date r) (mean_date rs)) rs))"
      by (rule sum_list_filter_perm [OF p])
    also have "filter (\<lambda>r. key_of r = k \<and> date_le (date r) (mean_date rs)) rs
        = filter (\<lambda>r. date r \<noteq> None \<and> key_of r = k \<and> of_int (the (date r)) \<le> spec_mid_date rs) rs"
    proof (rule filter_cong [OF refl])
      fix r assume r: "r \<in> set rs"
      show "(key_of r = k \<and> date_le (date r) (mean_date rs))
          = (date r \<noteq> None \<and> key_of r = k \<and> of_int (the (date r)) \<le> spec_mid_date rs)"
      proof (cases "date r")
        case None
        then show ?thesis by simp
      next
        case (Some d)
        then show ?thesis using mean_date_Some [OF r Some] by auto
      qed
    qed
    also have "\<dots> = filter (\<lambda>r. of_int (the (date r)) \<le> spec_mid_date rs)
          (filter (\<lambda>r. key_of r = k) (dated rs))"
      by (simp add: dated_def conj_commute conj_left_commute del: not_None_eq)
    finally show ?thesis .
  qed
  show ?thesis
    unfolding growth_of_group_def spec_growth_rate_def md recent past Let_def ..
qed

lemma map_of_tabulate:
  "k \<in> set ks \<Longrightarrow> map_of (map (\<lambda>k. (k, f k)) ks) k = Some (f k)"
  by (induction ks) auto

lemma map_of_growth_rates:
  assumes "k \<in> key_of ` set rs"
  shows "map_of (growth_rates rs) k = Some (spec_growth_rate rs k)"
proof -
  let ?s = "sort_values_date rs"
  have "set ?s = set rs" using mset_sort_values_date [of rs] by (metis set_mset_mset)
  then have k: "k \<in> set (group_keys ?s)" using assms by (simp add: set_group_keys)
  have "map_of (map (\<lambda>k. (k, growth_of_group (mean_date ?s) (group_rows k ?s))) (group_keys ?s)) k
      = Some (growth_of_group (mean_date ?s) (group_rows k ?s))"
    using k by (rule map_of_tabulate)
  then show ?thesis by (simp add: growth_rates_def Let_def growth_of_group_spec)
qed

lemma key_of_bio_agg: "map key_of (bio_agg rs) = group_keys rs"
  by (simp add: bio_agg_def key_of_def comp_def)

lemma set_sort_values_AUPS: "set (sort_values_AUPS xs) = set xs"
  by (simp add: sort_values_AUPS_def)

lemma metrics_row_cases:
  assumes "calculate_district_metrics bio es = Inr ms" and "m \<in> set ms"
  obtains l where "l \<in> set (bio_agg (rows bio))"
    and "m = normalize (nanmax (map AUPS (scored_rows bio es))) (score (growth_row_of bio es l))"
proof -
  from metrics_rows [OF assms(1)] assms(2)
  obtain s where s: "s \<in> set (scored_rows bio es)"
    and m: "m = normalize (nanmax (map AUPS (scored_rows bio es))) s" by auto
  from s obtain l where "l \<in> set (bio_agg (rows bio))" "s = score (growth_row_of bio es l)"
    by (auto simp: scored_rows_def set_sort_values_AUPS)
  with m that show thesis by blast
qed

lemma key_of_metric:
  "key_of (normalize mx (score (growth_row_of bio es l))) = key_of l"
  by (simp add: key_of_def normalize_def score_def growth_row_of_def Let_def)

lemma growth_rate_metric:
  "growth_rate (normalize mx (score (growth_row_of bio es l))) = growth_of bio (key_of l)"
  by (simp add: normalize_def score_def growth_row_of_def Let_def)

lemma metrics_keys:
  assumes "calculate_district_metrics bio es = Inr ms"
  shows "map key_of ms = map key_of (scored_rows bio es)"
    and "key_of ` set ms = key_of ` set (rows bio)"
proof -
  have k: "\<And>mx s. key_of (normalize mx s) = key_of s" by (simp add: key_of_def normalize_def)
  show 1: "map key_of ms = map key_of (scored_rows bio es)"
    by (subst metrics_rows [OF assms]) (simp add: k comp_def)
  have k2: "\<And>g. key_of (score g) = key_of g" by (simp add: key_of_def score_def Let_def)
  have k3: "\<And>l. key_of (growth_row_of bio es l) = key_of l" by (simp add: key_of_def growth_row_of_def)
  have "key_of ` set ms = set (map key_of ms)" by simp
  also have "\<dots> = key_of ` set (scored_rows bio es)" unfolding 1 by simp
  also have "\<dots> = key_of ` set (bio_agg (rows bio))"
    by (simp add: scored_rows_def set_sort_values_AUPS image_image k2 k3)
  also have "\<dots> = set (map key_of (bio_agg (rows bio)))" by simp
  also have "\<dots> = key_of ` set (rows bio)" unfolding key_of_bio_agg by (simp add: set_group_keys)
  finally show "key_of ` set ms = key_of ` set (rows bio)" .
qed

text \<open>
  C1. The output has the districts of the biometric table. With a date column,
  the growth rate of each is the one of the specification: the district's dated
  rows split at the one mean date of the whole input, \<open>(recent - past) / past\<close>
  when \<open>past > 0\<close> and 0 otherwise. Without a date column every growth rate is 0.
\<close>

theorem growth_rate_split_at_global_mean:
  assumes res: "calculate_district_metrics bio es = Inr ms"
  shows "key_of ` set ms = key_of ` set (rows bio)
    \<and> (\<forall>m\<in>set ms. growth_rate m =
          (if has_date bio then spec_growth_rate (rows bio) (key_of m) else Finite 0))"
proof (intro conjI ballI)
  show "key_of ` set ms = key_of ` set (rows bio)" by (rule metrics_keys(2) [OF res])
next
  fix m assume m: "m \<in> set ms"
  from res m obtain l where l: "l \<in> set (bio_agg (rows bio))"
    and mv: "m = normalize (nanmax (map AUPS (scored_rows bio es))) (score (growth_row_of bio es l))"
    by (rule metrics_row_cases)
  have "key_of l \<in> set (map key_of (bio_agg (rows bio)))" using l by simp
  then have kl: "key_of l \<in> key_of ` set (rows bio)"
    unfolding key_of_bio_agg by (simp add: set_group_keys)
  have "growth_rate m = growth_of bio (key_of l)" unfolding mv by (rule growth_rate_metric)
  also have "\<dots> = (if has_date bio then spec_growth_rate (rows bio) (key_of l) else Finite 0)"
    using map_of_growth_rates [OF kl] by (simp add: growth_of_def)
  also have "key_of l = key_of m" unfolding mv by (simp add: key_of_metric)
  finally show "growth_rate m =
      (if has_date bio then spec_growth_rate (rows bio) (key_of m) else Finite 0)" .
qed

theorem growth_rate_split_at_global_mean_witness:
  "calculate_district_metrics sample_bio sample_enrol =
     Inr [\<lparr>state = ''Karnataka'', district = ''Hassan'', total_biometric_updates = 17,
             total_enrolment = Finite 1, growth_rate = Finite (- (1 / 2)),
             update_density = Finite 17, growth_multiplier = Finite (1 / 2),
             AUPS = Finite 8500, AUPS_Normalized = Finite 100\<rparr>,
          \<lparr>state = ''Karnataka'', district = ''Mysuru'', total_biometric_updates = 40,
             total_enrolment = Finite 30, growth_rate = Finite 2,
             update_density = Finite (4 / 3), growth_multiplier = Finite 3,
             AUPS = Finite 4000, AUPS_Normalized = Finite (800 / 17)\<rparr>]
   \<and> spec_mid_date (rows sample_bio) = 5 / 2
   \<and> spec_growth_rate (rows sample_bio) (''Karnataka'', ''Hassan'') = Finite (- (1 / 2))
   \<and> spec_growth_rate (rows sample_bio) (''Karnataka'', ''Mysuru'') = Finite 2"
proof -
  let ?h = "\<lparr>state = ''Karnataka'', district = ''Hassan'', total_biometric_updates = 17,
             total_enrolment = Finite 1, growth_rate = Finite (- (1 / 2)),
             update_density = Finite 17, growth_multiplier = Finite (1 / 2),
             AUPS = Finite 8500, AUPS_Normalized = Finite 100\<rparr>"
  let ?m = "\<lparr>state = ''Karnataka'', district = ''Mysuru'', total_biometric_updates = 40,
             total_enrolment = Finite 30, growth_rate = Finite 2,
             update_density = Finite (4 / 3), growth_multiplier = Finite 3,
             AUPS = Finite 4000, AUPS_Normalized = Finite (800 / 17)\<rparr>"
  have res: "calculate_district_metrics sample_bio sample_enrol = Inr [?h, ?m]"
    by code_simp
  have hd: "has_date sample_bio" by (simp add: sample_bio_def)
  have mid: "spec_mid_date (rows sample_bio) = 5 / 2" by code_simp
  from growth_rate_split_at_global_mean [OF res] hd
  have "growth_rate ?h = spec_growth_rate (rows sample_bio) (key_of ?h)"
    and "growth_rate ?m = spec_growth_rate (rows sample_bio) (key_of ?m)"
    by simp_all
  then show ?thesis using res mid by (simp add: key_of_def)
qed

text \<open>
  The enrolment total of an output row: the sum of the three age bands over the
  district's enrolment rows, and 1 for a district without enrolment rows.
\<close>

lemma total_enrolment_metric:
  "total_enrolment (normalize mx (score (growth_row_of bio es l))) = enrolment_of es (key_of l)"
  by (simp add: normalize_def score_def growth_row_of_def Let_def)

lemma enrolment_of_absent:
  "k \<notin> key_of ` set es \<Longrightarrow> enrolment_of es k = Finite 1"
proof -
  assume "k \<notin> key_of ` set es"
  then have "k \<notin> fst ` set (enrol_agg es)"
    using set_group_keys [of es] map_fst_enrol_agg [of es] by (metis set_map)
  then have "map_of (enrol_agg es) k = None" by (simp add: map_of_eq_None_iff)
  then show ?thesis by (simp add: enrolment_of_def)
qed

lemma enrolment_of_present:
  assumes "k \<in> key_of ` set es"
  shows "enrolment_of es k =
     of_count (sum_list (map age_0_5 (group_rows k es)) + sum_list (map age_5_17 (group_rows k es))
       + sum_list (map age_18_greater (group_rows k es)))"
proof -
  have "k \<in> set (group_keys es)" using assms by (simp add: set_group_keys)
  then have "map_of (enrol_agg es) k =
      Some (sum_list (map age_0_5 (group_rows k es)) + sum_list (map age_5_17 (group_rows k es))
       + sum_list (map age_18_greater (group_rows k es)))"
    unfolding enrol_agg_def Let_def by (rule map_of_tabulate)
  then show ?thesis by (simp add: enrolment_of_def)
qed

lemma metrics_total_enrolment:
  assumes "calculate_district_metrics bio es = Inr ms" and "m \<in> set ms"
  shows "total_enrolment m = enrolment_of es (key_of m)"
proof -
  from assms obtain l where
    mv: "m = normalize (nanmax (map AUPS (scored_rows bio es))) (score (growth_row_of bio es l))"
    by (rule metrics_row_cases)
  show ?thesis unfolding mv by (simp add: total_enrolment_metric key_of_metric)
qed

text \<open>
  C2. The enrolment total is claimed to be floored at 1 whenever it is zero or
  the district is missing from the enrolment table. \<open>fillna(1)\<close> fills only the
  missing case (lemmas above). A district whose enrolment rows sum to zero keeps the
  total 0, and its density is a division by zero: \<open>Hassan\<close> below has
  \<open>total_enrolment = 0\<close> and \<open>update_density = +inf\<close>.
\<close>

theorem zero_enrolment_total_not_floored:
  "calculate_district_metrics sample_bio zero_enrol =
     Inr [\<lparr>state = ''Karnataka'', district = ''Hassan'', total_biometric_updates = 17,
             total_enrolment = Finite 0, growth_rate = Finite (- (1 / 2)),
             update_density = PosInf, growth_multiplier = Finite (1 / 2),
             AUPS = PosInf, AUPS_Normalized = NaN\<rparr>,
          \<lparr>state = ''Karnataka'', district = ''Mysuru'', total_biometric_updates = 40,
             total_enrolment = Finite 30, growth_rate = Finite 2,
             update_density = Finite (4 / 3), growth_multiplier = Finite 3,
             AUPS = Finite 4000, AUPS_Normalized = Finite 0\<rparr>]"
  by code_simp

text \<open>
  The normalised score when every enrolment total is at least 1 and the biometric
  counters are non-negative: it lies between 0 and 100, it is 100 for a row that
  has the maximum raw score when that maximum is positive, and 0 for every row
  when it is not.
\<close>

lemma spec_growth_rate_finite: "\<exists>g. spec_growth_rate rs k = Finite g"
  by (simp add: spec_growth_rate_def Let_def)

lemma foldl_fmax2_finite:
  assumes "\<forall>x\<in>set xs. \<exists>a. x = Finite a"
  shows "\<exists>mx. foldl fmax2 (Finite b) xs = Finite mx \<and> b \<le> mx
           \<and> (\<forall>a. Finite a \<in> set xs \<longrightarrow> a \<le> mx)"
  using assms
proof (induction xs arbitrary: b)
  case Nil
  then show ?case by simp
next
  case (Cons x xs)
  then obtain a where a: "x = Finite a" by auto
  define c where "c = (if b < a then a else b)"
  have step: "fmax2 (Finite b) x = Finite c" using a by (simp add: c_def)
  have "\<forall>x\<in>set xs. \<exists>a. x = Finite a" using Cons.prems by simp
  from Cons.IH [OF this, of c] obtain mx where
    mx: "foldl fmax2 (Finite c) xs = Finite mx" "c \<le> mx"
      "\<forall>a. Finite a \<in> set xs \<longrightarrow> a \<le> mx" by blast
  have bc: "b \<le> c" "a \<le> c" by (simp_all add: c_def)
  have "foldl fmax2 (Finite b) (x # xs) = Finite mx" using step mx(1) by simp
  moreover have "b \<le> mx" using mx(2) bc by linarith
  moreover have "\<forall>a'. Finite a' \<in> set (x # xs) \<longrightarrow> a' \<le> mx"
    using mx(2,3) a bc by auto
  ultimately show ?case by blast
qed

lemma nanmax_finite:
  assumes "xs \<noteq> []" and "\<forall>x\<in>set xs. \<exists>a. x = Finite a"
  shows "\<exists>mx. nanmax xs = Finite mx \<and> (\<forall>a. Finite a \<in> set xs \<longrightarrow> a \<le> mx)"
proof -
  have f: "filter notna xs = xs" using assms(2) by (auto simp: notna_def filter_id_conv)
  from assms obtain y ys where xs: "xs = y # ys" by (cases xs) auto
  with assms(2) obtain b where b: "y = Finite b" by auto
  have "\<forall>x\<in>set ys. \<exists>a. x = Finite a" using assms(2) xs by simp
  from foldl_fmax2_finite [OF this, of b] obtain mx where
    "foldl fmax2 (Finite b) ys = Finite mx" "b \<le> mx"
    "\<forall>a. Finite a \<in> set ys \<longrightarrow> a \<le> mx" by blast
  then show ?thesis using f xs b by (auto simp: nanmax_def)
qed

lemma enrolment_of_finite: "\<exists>e. enrolment_of es k = Finite e"
  by (simp add: enrolment_of_def of_count_def split: option.splits)

lemma AUPS_normalize: "AUPS (normalize mx s) = AUPS s"
  by (simp add: normalize_def)

lemma metrics_AUPS:
  assumes "calculate_district_metrics bio es = Inr ms"
  shows "map AUPS ms = map AUPS (scored_rows bio es)"
  by (subst metrics_rows [OF assms]) (simp add: AUPS_normalize comp_def)

lemma bio_agg_nonneg:
  assumes "\<forall>r\<in>set rs. 0 \<le> total_biometric_updates r" and "l \<in> set (bio_agg rs)"
  shows "0 \<le> total_biometric_updates l"
  using assms by (auto simp: bio_agg_def group_rows_def intro!: sum_list_nonneg)

lemma score_AUPS_nonneg:
  assumes "0 \<le> total_biometric_updates g" and "total_enrolment g = Finite e" and "1 \<le> e"
    and "growth_rate g = Finite r"
  shows "\<exists>a. AUPS (score g) = Finite a \<and> 0 \<le> a"
proof -
  have e0: "e \<noteq> 0" using assms(3) by auto
  have d: "0 \<le> of_int (total_biometric_updates g) / e" using assms(1,3) by simp
  define c where "c = (if r < - (1 / 2) then - (1 / 2) else if 2 < r then 2 else r)"
  have c: "clip (Finite (- (1 / 2))) (Finite 2) (Finite r) = Finite c" "- (1 / 2) \<le> c"
    by (simp_all add: clip_def fgt_def c_def)
  then have "0 \<le> 1 + c" by simp
  then have "0 \<le> of_int (total_biometric_updates g) / e * (1 + c)"
    using d by (rule mult_nonneg_nonneg [rotated])
  then have "0 \<le> of_int (total_biometric_updates g) / e * (1 + c) * 1000"
    by (rule mult_nonneg_nonneg) simp
  moreover have "AUPS (score g) = Finite (of_int (total_biometric_updates g) / e * (1 + c) * 1000)"
    using assms(2,4) c(1) e0 by (simp add: score_def Let_def of_count_def)
  ultimately show ?thesis by blast
qed

lemma normalized_score_range:
  assumes res: "calculate_district_metrics bio es = Inr ms"
    and bio_nonneg: "\<forall>r\<in>set (rows bio). 0 \<le> total_biometric_updates r"
    and floored: "\<forall>m\<in>set ms. fle (Finite 1) (total_enrolment m)"
    and m: "m \<in> set ms"
  shows "\<exists>n. AUPS_Normalized m = Finite n \<and> 0 \<le> n \<and> n \<le> 100
    \<and> (fgt (nanmax (map AUPS ms)) (Finite 0) \<and> AUPS m = nanmax (map AUPS ms) \<longrightarrow> n = 100)
    \<and> (\<not> fgt (nanmax (map AUPS ms)) (Finite 0) \<longrightarrow> n = 0)"
proof -
  have fin: "\<exists>a. AUPS x = Finite a \<and> 0 \<le> a" if x: "x \<in> set ms" for x
  proof -
    from res x obtain l where l: "l \<in> set (bio_agg (rows bio))"
      and xv: "x = normalize (nanmax (map AUPS (scored_rows bio es))) (score (growth_row_of bio es l))"
      by (rule metrics_row_cases)
    let ?g = "growth_row_of bio es l"
    have tb: "0 \<le> total_biometric_updates ?g"
      using bio_agg_nonneg [OF bio_nonneg l] by (simp add: growth_row_of_def)
    have "fle (Finite 1) (total_enrolment x)" using floored x by blast
    then have "fle (Finite 1) (total_enrolment ?g)"
      unfolding xv by (simp add: normalize_def score_def Let_def)
    moreover obtain e where "total_enrolment ?g = Finite e"
      using enrolment_of_finite [of es "key_of l"] by (auto simp: growth_row_of_def)
    ultimately have e: "total_enrolment ?g = Finite e" "1 \<le> e" by simp_all
    have "key_of l \<in> set (map key_of (bio_agg (rows bio)))" using l by simp
    then have kl: "key_of l \<in> key_of ` set (rows bio)"
      unfolding key_of_bio_agg by (simp add: set_group_keys)
    have "growth_of bio (key_of l) =
        (if has_date bio then spec_growth_rate (rows bio) (key_of l) else Finite 0)"
      using map_of_growth_rates [OF kl] by (simp add: growth_of_def)
    then obtain r where "growth_of bio (key_of l) = Finite r"
      using spec_growth_rate_finite [of "rows bio" "key_of l"] by (cases "has_date bio") auto
    then have gr: "growth_rate ?g = Finite r" by (simp add: growth_row_of_def)
    from score_AUPS_nonneg [OF tb e gr] show ?thesis unfolding xv by (simp add: AUPS_normalize)
  qed
  let ?mx = "nanmax (map AUPS ms)"
  have ne: "map AUPS ms \<noteq> []" using m by auto
  have "\<forall>x\<in>set (map AUPS ms). \<exists>a. x = Finite a" using fin by auto
  from nanmax_finite [OF ne this] obtain mx where
    mx: "?mx = Finite mx" "\<forall>a. Finite a \<in> set (map AUPS ms) \<longrightarrow> a \<le> mx" by blast
  from fin [OF m] obtain a where a: "AUPS m = Finite a" "0 \<le> a" by blast
  have amx: "a \<le> mx" using mx(2) a(1) m by (metis image_eqI set_map)
  from res m obtain l where
    mv: "m = normalize (nanmax (map AUPS (scored_rows bio es))) (score (growth_row_of bio es l))"
    by (rule metrics_row_cases)
  have "nanmax (map AUPS (scored_rows bio es)) = ?mx" by (simp add: metrics_AUPS [OF res])
  then have mv': "m = normalize ?mx (score (growth_row_of bio es l))" using mv by simp
  have am: "AUPS (score (growth_row_of bio es l)) = Finite a"
    using a(1) by (subst (asm) mv') (simp add: AUPS_normalize)
  have nv: "AUPS_Normalized m =
      (if 0 < mx then Finite (a / mx * 100) else Finite 0)"
    by (subst mv') (simp add: normalize_def am mx(1) fgt_def)
  show ?thesis
  proof (cases "0 < mx")
    case True
    have "0 \<le> a / mx * 100" using a(2) True by simp
    moreover have "a / mx * 100 \<le> 100" using amx True by (simp add: field_simps)
    moreover have "a = mx \<longrightarrow> a / mx * 100 = 100" using True by simp
    ultimately show ?thesis using nv True a(1) mx(1) by (simp add: fgt_def)
  next
    case False
    then show ?thesis using nv mx(1) by (simp add: fgt_def)
  qed
qed

text \<open>
  C3. Every output row is claimed to have \<open>0 \<le> AUPS_Normalized \<le> 100\<close>, the row
  of the maximum raw score having 100 when that maximum is positive. With the
  district of zero enrolment total the maximum raw score is \<open>+inf\<close>, which is
  positive; the row that has it gets \<open>inf / inf * 100\<close>, that is \<open>NaN\<close>, which is
  neither at least 0 nor 100, and the other row gets 0. Where every enrolment
  total is at least 1 the claim holds (\<open>normalized_score_range\<close>).
\<close>

theorem normalized_score_nan_on_zero_enrolment:
  "calculate_district_metrics (sample_bio\<lparr>has_date := False\<rparr>) zero_enrol =
     Inr [\<lparr>state = ''Karnataka'', district = ''Hassan'', total_biometric_updates = 17,
             total_enrolment = Finite 0, growth_rate = Finite 0,
             update_density = PosInf, growth_multiplier = Finite 1,
             AUPS = PosInf, AUPS_Normalized = NaN\<rparr>,
          \<lparr>state = ''Karnataka'', district = ''Mysuru'', total_biometric_updates = 40,
             total_enrolment = Finite 30, growth_rate = Finite 0,
             update_density = Finite (4 / 3), growth_multiplier = Finite 1,
             AUPS = Finite (4000 / 3), AUPS_Normalized = Finite 0\<rparr>]
   \<and> nanmax [PosInf, Finite (4000 / 3)] = PosInf
   \<and> fgt PosInf (Finite 0)
   \<and> \<not> fle (Finite 0) NaN
   \<and> NaN \<noteq> Finite 100"
  by code_simp

section \<open>Properties of the Feature Deriver\<close>

lemma feature_engineering_empty:
  "df_empty bio_df \<Longrightarrow> df_empty demo_df \<Longrightarrow>
     feature_engineering bio_df demo_df enrol_df = Inr (bio_df, demo_df, enrol_df)"
  by (simp add: feature_engineering_def)

text \<open>
  The Feature Deriver returns whenever each of the two tables is empty or has its
  two counters as numeric columns; a zero total gives the share \<open>NaN\<close>, not a fault.
\<close>

lemma map_of_assign:
  "map_of (assign c v ps) k = (if k = c then Some v else map_of ps k)"
  by (induction ps) auto

lemma get_col_set_col:
  "get_col (set_col df c v) k = (if k = c then Inr v else get_col df k)"
  by (simp add: get_col_def set_col_def map_of_assign)

lemma cell_add_numeric:
  "numeric x \<Longrightarrow> numeric y \<Longrightarrow> \<exists>z. cell_add x y = Inr z \<and> numeric z"
  by (cases x; cases y) (auto simp: numeric_def)

lemma cell_div_numeric:
  "numeric x \<Longrightarrow> numeric y \<Longrightarrow> \<exists>z. cell_div x y = Inr z"
  by (cases x; cases y) (auto simp: numeric_def cell_div_def)

lemma col_op_add_numeric:
  assumes "\<forall>x\<in>set xs. numeric x" "\<forall>y\<in>set ys. numeric y"
  shows "\<exists>zs. col_op cell_add xs ys = Inr zs \<and> (\<forall>z\<in>set zs. numeric z)"
  using assms
proof (induction xs arbitrary: ys)
  case Nil
  then show ?case by simp
next
  case (Cons x xs)
  show ?case
  proof (cases ys)
    case Nil
    then show ?thesis by simp
  next
    case (Cons y ys')
    with Cons.prems obtain z where z: "cell_add x y = Inr z" "numeric z"
      using cell_add_numeric [of x y] by auto
    from Cons.IH [of ys'] Cons.prems Cons obtain zs where
      "col_op cell_add xs ys' = Inr zs" "\<forall>z\<in>set zs. numeric z" by auto
    with z Cons show ?thesis by simp
  qed
qed

lemma col_op_div_numeric:
  assumes "\<forall>x\<in>set xs. numeric x" "\<forall>y\<in>set ys. numeric y"
  shows "\<exists>zs. col_op cell_div xs ys = Inr zs"
  using assms
proof (induction xs arbitrary: ys)
  case Nil
  then show ?case by simp
next
  case (Cons x xs)
  show ?case
  proof (cases ys)
    case Nil
    then show ?thesis by simp
  next
    case (Cons y ys')
    with Cons.prems obtain z where z: "cell_div x y = Inr z"
      using cell_div_numeric [of x y] by auto
    from Cons.IH [of ys'] Cons.prems Cons obtain zs where
      "col_op cell_div xs ys' = Inr zs" by auto
    with z Cons show ?thesis by simp
  qed
qed

lemma derive_returns:
  assumes "get_col df a = Inr xa" "get_col df b = Inr xb"
    and "\<forall>x\<in>set xa. numeric x" "\<forall>y\<in>set xb. numeric y"
    and "num = a \<or> num = b" "tot \<noteq> a" "tot \<noteq> b"
  shows "\<exists>df'. derive df a b tot num share = Inr df'"
proof -
  obtain t where t: "col_op cell_add xa xb = Inr t" "\<forall>z\<in>set t. numeric z"
    using col_op_add_numeric [OF assms(3,4)] by blast
  obtain xn where xn: "get_col (set_col df tot t) num = Inr xn" "\<forall>x\<in>set xn. numeric x"
    using assms by (auto simp: get_col_set_col)
  obtain s where s: "col_op cell_div xn t = Inr s"
    using col_op_div_numeric [OF xn(2) t(2)] by blast
  show ?thesis
    using assms(1,2) t(1) xn(1) s by (simp add: derive_def Let_def get_col_set_col)
qed

lemma feature_engineering_returns:
  assumes "df_empty bio_df \<or> numeric_cols bio_df ''bio_age_5_17'' ''bio_age_17_''"
    and "df_empty demo_df \<or> numeric_cols demo_df ''demo_age_5_17'' ''demo_age_17_''"
  shows "\<exists>r. feature_engineering bio_df demo_df enrol_df = Inr r"
proof -
  have b: "\<exists>df'. (if \<not> df_empty bio_df
            then derive bio_df ''bio_age_5_17'' ''bio_age_17_'' ''total_biometric_updates''
                   ''bio_age_5_17'' ''child_teen_update_share''
            else Inr bio_df) = Inr df'"
  proof (cases "df_empty bio_df")
    case True
    then show ?thesis by simp
  next
    case False
    with assms(1) obtain xa xb where
      "get_col bio_df ''bio_age_5_17'' = Inr xa" "get_col bio_df ''bio_age_17_'' = Inr xb"
      "\<forall>x\<in>set xa. numeric x" "\<forall>y\<in>set xb. numeric y"
      by (auto simp: numeric_cols_def list_all_iff split: sum.splits)
    from derive_returns [OF this, of "''bio_age_5_17''" "''total_biometric_updates''"
        "''child_teen_update_share''"] False
    show ?thesis by simp
  qed
  have d: "\<exists>df'. (if \<not> df_empty demo_df
                 then derive demo_df ''demo_age_5_17'' ''demo_age_17_'' ''total_demographic_updates''
                        ''demo_age_17_'' ''adult_update_share''
                 else Inr demo_df) = Inr df'"
  proof (cases "df_empty demo_df")
    case True
    then show ?thesis by simp
  next
    case False
    with assms(2) obtain xa xb where
      "get_col demo_df ''demo_age_5_17'' = Inr xa" "get_col demo_df ''demo_age_17_'' = Inr xb"
      "\<forall>x\<in>set xa. numeric x" "\<forall>y\<in>set xb. numeric y"
      by (auto simp: numeric_cols_def list_all_iff split: sum.splits)
    from derive_returns [OF this, of "''demo_age_17_''" "''total_demographic_updates''"
        "''adult_update_share''"] False
    show ?thesis by simp
  qed
  from b obtain b' where b': "(if \<not> df_empty bio_df
            then derive bio_df ''bio_age_5_17'' ''bio_age_17_'' ''total_biometric_updates''
                   ''bio_age_5_17'' ''child_teen_update_share''
            else Inr bio_df) = Inr b'" by blast
  from d obtain d' where d': "(if \<not> df_empty demo_df
                 then derive demo_df ''demo_age_5_17'' ''demo_age_17_'' ''total_demographic_updates''
                        ''demo_age_17_'' ''adult_update_share''
                 else Inr demo_df) = Inr d'" by blast
  show ?thesis unfolding feature_engineering_def b' d' by simp
qed

text \<open>
  C9. Whatever the Feature Deriver returns, the enrolment table it returns is the
  one it was given, and an empty biometric or demographic table is returned as it
  was given.
\<close>

theorem feature_engineering_frame:
  assumes "feature_engineering bio_df demo_df enrol_df = Inr (bio', demo', enrol')"
  shows "enrol' = enrol_df \<and> (df_empty bio_df \<longrightarrow> bio' = bio_df)
    \<and> (df_empty demo_df \<longrightarrow> demo' = demo_df)"
  using assms by (auto simp: feature_engineering_def split: if_splits sum.splits)

theorem feature_engineering_frame_witness:
  "feature_engineering bio_frame empty_frame enrol_frame =
     Inr (\<lparr>nrows = 2, columns =
            [(''state'', [StrCell ''Karnataka'', StrCell ''Karnataka'']),
             (''bio_age_5_17'', [IntCell 0, IntCell 3]),
             (''bio_age_17_'', [IntCell 0, IntCell 1]),
             (''total_biometric_updates'', [IntCell 0, IntCell 4]),
             (''child_teen_update_share'', [FloatCell NaN, FloatCell (Finite (3 / 4))])]\<rparr>,
          empty_frame, enrol_frame)
   \<and> df_empty empty_frame"
proof -
  let ?b = "\<lparr>nrows = 2, columns =
            [(''state'', [StrCell ''Karnataka'', StrCell ''Karnataka'']),
             (''bio_age_5_17'', [IntCell 0, IntCell 3]),
             (''bio_age_17_'', [IntCell 0, IntCell 1]),
             (''total_biometric_updates'', [IntCell 0, IntCell 4]),
             (''child_teen_update_share'', [FloatCell NaN, FloatCell (Finite (3 / 4))])]\<rparr>"
  have e: "df_empty empty_frame" by code_simp
  have r: "feature_engineering bio_frame empty_frame enrol_frame = Inr (?b, empty_frame, enrol_frame)"
    by code_simp
  from feature_engineering_frame [OF r] e r show ?thesis by simp
qed

section \<open>Properties of the Backtest Validator\<close>

lemma metrics_returns:
  assumes "has_date bio" "rows bio \<noteq> []"
  shows "\<exists>ms. calculate_district_metrics bio es = Inr ms"
proof -
  have "set (sort_values_date (rows bio)) = set (rows bio)"
    using mset_sort_values_date [of "rows bio"] by (metis set_mset_mset)
  then have "set (group_keys (sort_values_date (rows bio))) \<noteq> {}"
    using assms(2) by (simp add: set_group_keys)
  then have "map fst (growth_rates (rows bio)) \<noteq> []"
    unfolding map_fst_growth_rates by auto
  then have "growth_rates (rows bio) \<noteq> []" by auto
  then show ?thesis using assms(1)
    by (simp add: calculate_district_metrics_def Let_def)
qed

lemma t1_metrics_ok:
  assumes "fst (split_halves (rows bio)) \<noteq> []"
  shows "calculate_district_metrics \<lparr>has_date = True, rows = fst (split_halves (rows bio))\<rparr> es
    = Inr (t1_metrics bio es)"
proof -
  obtain ms where "calculate_district_metrics \<lparr>has_date = True, rows = fst (split_halves (rows bio))\<rparr> es = Inr ms"
    using metrics_returns [of "\<lparr>has_date = True, rows = fst (split_halves (rows bio))\<rparr>" es] assms
    by auto
  then show ?thesis by (simp add: t1_metrics_def)
qed

lemma distinct_metric_keys:
  assumes "calculate_district_metrics bio es = Inr ms"
  shows "distinct (map key_of ms)"
proof -
  have k2: "\<And>g. key_of (score g) = key_of g" by (simp add: key_of_def score_def Let_def)
  have k3: "\<And>l. key_of (growth_row_of bio es l) = key_of l" by (simp add: key_of_def growth_row_of_def)
  have "mset (map key_of (scored_rows bio es)) = mset (map key_of (bio_agg (rows bio)))"
    by (simp add: scored_rows_def sort_values_AUPS_def k2 k3 comp_def del: mset_map)
     (simp add: image_mset.compositionality comp_def k2 k3)
  then have "distinct (map key_of (scored_rows bio es)) = distinct (map key_of (bio_agg (rows bio)))"
    by (metis distinct_count_atmost_1 set_mset_mset count_mset) 
  then show ?thesis
    unfolding metrics_keys(1) [OF assms] key_of_bio_agg by (simp add: distinct_group_keys)
qed

lemma filter_eq_distinct:
  "distinct ks \<Longrightarrow> filter (\<lambda>k. k = x) ks = (if x \<in> set ks then [x] else [])"
  by (induction ks) auto

lemma merge_indicator_distinct:
  assumes "distinct ks"
  shows "merge_indicator ls ks =
     map (\<lambda>l. (l, if key_of l \<in> set ks then both else left_only)) ls"
  by (induction ls) (auto simp: merge_indicator_def filter_eq_distinct [OF assms])

lemma nanmean_counts:
  "nanmean (map of_count vs) =
     (if vs = [] then NaN else Finite (of_int (sum_list vs) / of_nat (length vs)))"
proof -
  have f: "filter notna (map of_count vs) = map of_count vs"
    by (induction vs) (simp_all add: notna_def of_count_def)
  have s: "foldr fadd (map of_count vs) (Finite 0) = Finite (of_int (sum_list vs))"
    by (induction vs) (simp_all add: of_count_def)
  show ?thesis
    by (cases "vs = []") (simp_all add: nanmean_def nansum_def Let_def f s)
qed

lemma total_bio_agg:
  "filter P (bio_agg t2) =
     map (\<lambda>k. \<lparr>state = fst k, district = snd k,
               total_biometric_updates = sum_list (map total_biometric_updates (group_rows k t2))\<rparr>)
       (filter (\<lambda>k. P \<lparr>state = fst k, district = snd k,
               total_biometric_updates = sum_list (map total_biometric_updates (group_rows k t2))\<rparr>)
          (group_keys t2))"
  by (simp add: bio_agg_def filter_map comp_def)

lemma mean_updates_spec:
  assumes "distinct ks"
  shows "mean_updates both (merge_indicator (bio_agg t2) ks) =
           spec_mean (t2_volume t2) (key_of ` set t2 \<inter> set ks)"
    and "mean_updates left_only (merge_indicator (bio_agg t2) ks) =
           spec_mean (t2_volume t2) (key_of ` set t2 - set ks)"
proof -
  let ?row = "\<lambda>k. \<lparr>state = fst k, district = snd k,
               total_biometric_updates = sum_list (map total_biometric_updates (group_rows k t2))\<rparr>"
  have key_row: "\<And>k v. key_of \<lparr>state = fst k, district = snd k, total_biometric_updates = v\<rparr> = k"
    by (simp add: key_of_def)
  have vol: "\<And>k. total_biometric_updates (?row k) = t2_volume t2 k"
    by (simp add: t2_volume_def group_rows_def)
  have gen: "mean_updates side (merge_indicator (bio_agg t2) ks) =
      spec_mean (t2_volume t2) (set (filter (\<lambda>k. (if k \<in> set ks then both else left_only) = side) (group_keys t2)))"
    for side
  proof -
    let ?sel = "filter (\<lambda>k. (if k \<in> set ks then both else left_only) = side) (group_keys t2)"
    have d: "distinct ?sel" by (simp add: distinct_group_keys)
    have "map (\<lambda>p. of_count (total_biometric_updates (fst p)))
            (filter (\<lambda>p. snd p = side) (merge_indicator (bio_agg t2) ks))
        = map of_count (map (t2_volume t2) ?sel)"
      unfolding merge_indicator_distinct [OF assms] bio_agg_def
      by (simp add: filter_map comp_def key_row t2_volume_def group_rows_def)
    then have "mean_updates side (merge_indicator (bio_agg t2) ks) =
        nanmean (map of_count (map (t2_volume t2) ?sel))"
      by (simp add: mean_updates_def)
    also have "\<dots> = (if ?sel = [] then NaN
        else Finite (of_int (sum_list (map (t2_volume t2) ?sel)) / of_nat (length ?sel)))"
      unfolding nanmean_counts by simp
    also have "\<dots> = spec_mean (t2_volume t2) (set ?sel)"
      using d by (simp add: spec_mean_def sum_list_distinct_conv_sum_set distinct_card del: set_filter)
    finally show ?thesis .
  qed
  have "set (filter (\<lambda>k. (if k \<in> set ks then both else left_only) = both) (group_keys t2))
      = key_of ` set t2 \<inter> set ks"
    by (auto simp: set_group_keys)
  then show "mean_updates both (merge_indicator (bio_agg t2) ks) =
           spec_mean (t2_volume t2) (key_of ` set t2 \<inter> set ks)"
    using gen [of both] by simp
  have "set (filter (\<lambda>k. (if k \<in> set ks then both else left_only) = left_only) (group_keys t2))
      = key_of ` set t2 - set ks"
    by (auto simp: set_group_keys)
  then show "mean_updates left_only (merge_indicator (bio_agg t2) ks) =
           spec_mean (t2_volume t2) (key_of ` set t2 - set ks)"
    using gen [of left_only] by simp
qed

lemma set_stressed_districts: "set (stressed_districts t1m) = spec_stressed t1m"
  by (simp add: stressed_districts_def spec_stressed_def Let_def)

lemma distinct_stressed_districts:
  "distinct (map key_of t1m) \<Longrightarrow> distinct (stressed_districts t1m)"
  by (simp add: stressed_districts_def Let_def distinct_map_filter)

lemma validate_spec:
  assumes "distinct (map key_of t1m)"
  shows "validate t1m t2 = spec_validation t1m t2"
  using mean_updates_spec [OF distinct_stressed_districts [OF assms], of t2]
  by (simp add: validate_def spec_validation_def Let_def set_stressed_districts)

lemma spec_mean_empty: "spec_mean f {} = NaN"
  by (simp add: spec_mean_def)

text \<open>
  C5. With a date column and two non-empty halves, the validator returns the
  validation of the specification: the stressed districts are those of T1 whose
  score is at or above the 80th percentile of the T1 scores, \<open>is_valid\<close> says
  whether the mean T2 volume of the stressed districts exceeds that of the other
  districts of T2, and \<open>lift\<close> is the ratio of the two means when the normal
  mean is positive and 1 otherwise.
\<close>

theorem backtest_matches_specification:
  assumes hd: "has_date bio"
    and t1: "fst (split_halves (rows bio)) \<noteq> []"
    and t2: "snd (split_halves (rows bio)) \<noteq> []"
  shows "run_backtest_validation bio es =
           Inr (Validation (spec_validation (t1_metrics bio es) (snd (split_halves (rows bio)))))"
proof -
  have m: "calculate_district_metrics \<lparr>has_date = True, rows = fst (split_halves (rows bio))\<rparr> es
      = Inr (t1_metrics bio es)"
    by (rule t1_metrics_ok [OF t1])
  have "validate (t1_metrics bio es) (snd (split_halves (rows bio)))
      = spec_validation (t1_metrics bio es) (snd (split_halves (rows bio)))"
    by (rule validate_spec [OF distinct_metric_keys [OF m]])
  then show ?thesis using hd t1 t2 m
    by (simp add: run_backtest_validation_def split_beta)
qed

theorem backtest_matches_specification_witness:
  "run_backtest_validation sample_bio sample_enrol =
     Inr (Validation \<lparr>is_valid = False, stressed_avg_t2 = Finite 9,
                      normal_avg_t2 = Finite 30, lift = Finite (3 / 10)\<rparr>)
   \<and> spec_stressed (t1_metrics sample_bio sample_enrol) = {(''Karnataka'', ''Hassan'')}"
proof -
  have hd: "has_date sample_bio" by code_simp
  have t1: "fst (split_halves (rows sample_bio)) \<noteq> []" by code_simp
  have t2: "snd (split_halves (rows sample_bio)) \<noteq> []" by code_simp
  have v: "spec_validation (t1_metrics sample_bio sample_enrol) (snd (split_halves (rows sample_bio)))
      = \<lparr>is_valid = False, stressed_avg_t2 = Finite 9,
         normal_avg_t2 = Finite 30, lift = Finite (3 / 10)\<rparr>"
    by code_simp
  have s: "spec_stressed (t1_metrics sample_bio sample_enrol) = {(''Karnataka'', ''Hassan'')}"
    by code_simp
  from backtest_matches_specification [OF hd t1 t2, of sample_enrol] v s show ?thesis by simp
qed

text \<open>
  C10. With a date column and two non-empty halves, when no stressed district of
  T1 is among the districts of T2, the validator still returns a validation
  result: its stressed mean is \<open>NaN\<close> (the mean of nothing) and \<open>is_valid\<close> is
  false.
\<close>

theorem backtest_no_stressed_district_in_t2:
  assumes hd: "has_date bio"
    and t1: "fst (split_halves (rows bio)) \<noteq> []"
    and t2: "snd (split_halves (rows bio)) \<noteq> []"
    and none: "list_all (\<lambda>k. k \<notin> key_of ` set (snd (split_halves (rows bio))))
                 (stressed_districts (t1_metrics bio es))"
  shows "\<exists>normal l. run_backtest_validation bio es =
           Inr (Validation \<lparr>is_valid = False, stressed_avg_t2 = NaN,
                            normal_avg_t2 = normal, lift = l\<rparr>)"
proof -
  let ?t2 = "snd (split_halves (rows bio))"
  let ?ks = "stressed_districts (t1_metrics bio es)"
  have m: "calculate_district_metrics \<lparr>has_date = True, rows = fst (split_halves (rows bio))\<rparr> es
      = Inr (t1_metrics bio es)"
    by (rule t1_metrics_ok [OF t1])
  have d: "distinct ?ks" by (rule distinct_stressed_districts [OF distinct_metric_keys [OF m]])
  have "key_of ` set ?t2 \<inter> set ?ks = {}" using none by (auto simp: list_all_iff)
  then have s: "mean_updates both (merge_indicator (bio_agg ?t2) ?ks) = NaN"
    unfolding mean_updates_spec(1) [OF d] by (simp add: spec_mean_empty)
  have "run_backtest_validation bio es = Inr (Validation (validate (t1_metrics bio es) ?t2))"
    using hd t1 t2 m by (simp add: run_backtest_validation_def split_beta)
  then show ?thesis
    by (simp add: validate_def Let_def s fgt_def)
qed

theorem backtest_no_stressed_district_in_t2_witness:
  "run_backtest_validation disjoint_bio sample_enrol =
     Inr (Validation \<lparr>is_valid = False, stressed_avg_t2 = NaN,
                      normal_avg_t2 = Finite 8, lift = NaN\<rparr>)
   \<and> stressed_districts (t1_metrics disjoint_bio sample_enrol) = [(''Karnataka'', ''Mysuru'')]"
proof -
  have hd: "has_date disjoint_bio" by code_simp
  have t1: "fst (split_halves (rows disjoint_bio)) \<noteq> []" by code_simp
  have t2: "snd (split_halves (rows disjoint_bio)) \<noteq> []" by code_simp
  have none: "list_all (\<lambda>k. k \<notin> key_of ` set (snd (split_halves (rows disjoint_bio))))
                 (stressed_districts (t1_metrics disjoint_bio sample_enrol))"
    by code_simp
  have s: "stressed_districts (t1_metrics disjoint_bio sample_enrol) = [(''Karnataka'', ''Mysuru'')]"
    by code_simp
  have r: "run_backtest_validation disjoint_bio sample_enrol =
     Inr (Validation \<lparr>is_valid = False, stressed_avg_t2 = NaN,
                      normal_avg_t2 = Finite 8, lift = NaN\<rparr>)"
    by code_simp
  from backtest_no_stressed_district_in_t2 [OF hd t1 t2 none] r s show ?thesis by simp
qed

end
